theory Spec2Isabelle
  imports Main "HOL-Library.AList" "HOL-Library.Word"
begin

section \<open>Values, dictionaries and exceptions\<close>

text \<open>
  A cell of the table that \<open>pd.read_csv(csv, dtype=DTYPES)\<close> delivers is a Python
  \<open>str\<close>, \<open>int\<close> or \<open>float\<close>. The script never computes with a float, it only
  passes it on, so a float is carried as its IEEE-754 binary64 bit pattern. The integers
  are Python integers by the time the script sees them (\<open>iterrows\<close> yields an object
  row for a table that holds a text column), hence unbounded. An empty cell of a text
  column arrives as the float NaN.
\<close>

datatype cell = CStr string | CInt int | CFloat "64 word"

text \<open>
  A Python \<open>dict\<close> with string keys, in insertion order: an association list whose
  keys are kept distinct by \<open>dict\<close>.
\<close>

type_synonym pydict = "(string \<times> cell) list"

text \<open>
  The exceptions a run can end with. \<open>ValueError\<close> carries the message the script
  formats. \<open>KeyError\<close> is what \<open>record.pop\<close> raises on a missing key.
  \<open>TypeError\<close> is what \<open>c - 1\<close> raises on a text cell. The model also ends with it
  where it does not follow Python: \<open>c - 1\<close> on a float, and the formatting of a float
  other than NaN as a plate name. With \<open>dtype=DTYPES\<close> the columns \<open>row\<close> and
  \<open>column\<close> hold integers and the column \<open>plate_name\<close> holds text or NaN, so no table
  that \<open>read_csv\<close> delivers reaches these two branches.
\<close>

datatype error = ValueError string | KeyError string | TypeError

definition dict :: "(string \<times> cell) list \<Rightarrow> pydict" where
  "dict ps = fold (\<lambda>(k, v) d. AList.update k v d) ps []"

text \<open>\<open>d.pop(k)\<close>: the value under \<open>k\<close> and the dictionary without \<open>k\<close>.\<close>

definition pop :: "string \<Rightarrow> pydict \<Rightarrow> error + (cell \<times> pydict)" where
  "pop k d = (case map_of d k of
                None \<Rightarrow> Inl (KeyError k)
              | Some v \<Rightarrow> Inr (v, AList.delete k d))"

text \<open>\<open>c - 1\<close> for a cell of an \<open>int\<close> column.\<close>

definition minus_one :: "cell \<Rightarrow> error + int" where
  "minus_one c = (case c of CInt i \<Rightarrow> Inr (i - 1) | _ \<Rightarrow> Inl TypeError)"

subsection \<open>Formatting integers in messages\<close>

definition digit :: "nat \<Rightarrow> char" where
  "digit d = char_of (48 + d)"

function str_nat :: "nat \<Rightarrow> string" where
  "str_nat n = (if n < 10 then [digit n] else str_nat (n div 10) @ [digit (n mod 10)])"
  by pat_completeness auto
termination
  by (relation "measure id") auto

declare str_nat.simps [simp del]

definition str_int :: "int \<Rightarrow> string" where
  "str_int i = (if i < 0 then CHR ''-'' # str_nat (nat (- i)) else str_nat (nat i))"

text \<open>
  The NaN patterns of binary64: all exponent bits set and a fraction that is not zero.
\<close>

definition is_nan :: "64 word \<Rightarrow> bool" where
  "is_nan w = (0x7FF0000000000000 < take_bit 63 w)"

text \<open>
  The plate name as the script uses it. The script never checks its type: the query
  parameter is \<open>rstring(plate_name)\<close>, which takes \<open>str(plate_name)\<close> of a value that
  is not text, and the messages format it with an f-string. So text stands for itself,
  an integer for its digits and NaN for \<open>nan\<close>.
\<close>

definition as_str :: "cell \<Rightarrow> error + string" where
  "as_str c = (case c of
                 CStr s \<Rightarrow> Inr s
               | CInt i \<Rightarrow> Inr (str_int i)
               | CFloat w \<Rightarrow> if is_nan w then Inr ''nan'' else Inl TypeError)"

section \<open>The constants of the script\<close>

definition NAMESPACE :: string where
  "NAMESPACE = ''jax.org/omeroutils/invitro_arsenic/plate_metadata/v0''"

datatype dtype = Dstr | Dint | Dfloat

definition DTYPES :: "(string \<times> dtype) list" where
  "DTYPES = [(''plate_name'', Dstr),
             (''row'', Dint),
             (''column'', Dint),
             (''individual'', Dstr),
             (''concentration'', Dfloat),
             (''compound'', Dstr)]"

section \<open>The annotation service\<close>

text \<open>
  The script talks to an OMERO server through the client library. The server is
  modelled by the three tables the script reads or writes: plates, wells and the map
  annotations on wells. The field \<open>trace\<close> records, in order, every call the script
  makes to the library and every line it logs or prints, so that what a run did - and
  did not do - can be stated.
\<close>

record plate =
  pl_id :: int
  pl_name :: string

record well =
  w_id :: int
  w_plate :: int
  w_row :: int
  w_column :: int

record map_annotation =
  ma_id :: int
  ma_ns :: string
  ma_well :: int
  ma_kv :: pydict

datatype event =
    Connect
  | Projection string
  | GetWellId int int int
  | GetMapAnnotationIds int string
  | PutMapAnnotation int pydict
  | PostMapAnnotation int pydict string
  | Warning string
  | Print string
  | Close

record omero =
  plates :: "plate list"
  wells :: "well list"
  annotations :: "map_annotation list"
  trace :: "event list"

definition emit :: "event \<Rightarrow> omero \<Rightarrow> omero" where
  "emit e s = s\<lparr>trace := trace s @ [e]\<rparr>"

text \<open>
  The query \<open>SELECT pl.id FROM Plate pl WHERE pl.name=:pname\<close>: the identifiers of
  the stored plates with exactly that name.
\<close>

definition projection :: "string \<Rightarrow> omero \<Rightarrow> int list \<times> omero" where
  "projection pname s =
     (map pl_id (filter (\<lambda>pl. pl_name pl = pname) (plates s)), emit (Projection pname) s)"

text \<open>
  \<open>ezomero.get_well_id\<close>: the identifier of the well of the plate at that row and
  column, \<open>None\<close> when there is none.
\<close>

definition get_well_id :: "int \<Rightarrow> int \<Rightarrow> int \<Rightarrow> omero \<Rightarrow> int option \<times> omero" where
  "get_well_id p r c s =
     (case filter (\<lambda>w. w_plate w = p \<and> w_row w = r \<and> w_column w = c) (wells s) of
        [] \<Rightarrow> (None, emit (GetWellId p r c) s)
      | w # _ \<Rightarrow> (Some (w_id w), emit (GetWellId p r c) s))"

text \<open>
  \<open>ezomero.get_map_annotation_ids(conn, "Well", well_id, ns)\<close>: the identifiers of
  the map annotations on the well under the namespace.
\<close>

definition get_map_annotation_ids :: "int \<Rightarrow> string \<Rightarrow> omero \<Rightarrow> int list \<times> omero" where
  "get_map_annotation_ids wid ns s =
     (map ma_id (filter (\<lambda>a. ma_well a = wid \<and> ma_ns a = ns) (annotations s)),
      emit (GetMapAnnotationIds wid ns) s)"

text \<open>
  \<open>ezomero.put_map_annotation(conn, map_ann_id, kv_dict)\<close>: the annotation with that
  identifier gets the new key-value pairs; its namespace and its well stay.
\<close>

definition put_map_annotation :: "int \<Rightarrow> pydict \<Rightarrow> omero \<Rightarrow> omero" where
  "put_map_annotation i kv s =
     emit (PutMapAnnotation i kv)
       (s\<lparr>annotations := map (\<lambda>a. if ma_id a = i then a\<lparr>ma_kv := kv\<rparr> else a) (annotations s)\<rparr>)"

text \<open>
  \<open>ezomero.post_map_annotation(conn, "Well", well_id, kv_dict, ns)\<close>: a new
  annotation on the well, under an identifier the server has not used, which is
  returned.
\<close>

definition fresh_id :: "omero \<Rightarrow> int" where
  "fresh_id s = 1 + fold max (map ma_id (annotations s)) 0"

definition post_map_annotation :: "int \<Rightarrow> pydict \<Rightarrow> string \<Rightarrow> omero \<Rightarrow> int \<times> omero" where
  "post_map_annotation wid kv ns s =
     (fresh_id s,
      emit (PostMapAnnotation wid kv ns)
        (s\<lparr>annotations := annotations s @
              [\<lparr>ma_id = fresh_id s, ma_ns = ns, ma_well = wid, ma_kv = kv\<rparr>]\<rparr>))"

section \<open>The script\<close>

definition get_plate_id :: "string \<Rightarrow> omero \<Rightarrow> (error + int) \<times> omero" where
  "get_plate_id plate_name s =
     (case projection plate_name s of (results, s') \<Rightarrow>
        if length results = 0 then
          (Inl (ValueError (''No plate found with name '' @ plate_name)), s')
        else if length results > 1 then
          (Inl (ValueError (''Multiple plates found with name '' @ plate_name)), s')
        else (Inr (hd results), s'))"

text \<open>The table \<open>read_csv\<close> delivers: the header and the rows of cells.\<close>

record dataframe =
  columns :: "string list"
  rows :: "cell list list"

definition iterrows :: "dataframe \<Rightarrow> pydict list" where
  "iterrows df = map (\<lambda>r. dict (zip (columns df) r)) (rows df)"

text \<open>The body of the loop of \<open>main\<close>, for one row.\<close>

definition annotate_well :: "bool \<Rightarrow> int \<Rightarrow> pydict \<Rightarrow> omero \<Rightarrow> error option \<times> omero" where
  "annotate_well force well_id record s =
     (case get_map_annotation_ids well_id NAMESPACE s of (ma_ids, s1) \<Rightarrow>
        if length ma_ids \<noteq> 0 then
          (let s2 = emit (Warning (''MapAnnotation with namespace:'' @ NAMESPACE @
                                   '' already exists for well:'' @ str_int well_id)) s1
           in if \<not> force then
                (None, emit (Warning (''Skipping MapAnnotation for well:'' @ str_int well_id)) s2)
              else
                (None, put_map_annotation (hd ma_ids) record
                         (emit (Warning (''Forcing update of MapAnnotation:'' @ str_int (hd ma_ids) @
                                         '' for well:'' @ str_int well_id)) s2)))
        else
          (case post_map_annotation well_id record NAMESPACE s1 of (new_ma_id, s2) \<Rightarrow>
             (None, emit (Print (''New MapAnnotation:'' @ str_int new_ma_id @
                                 '' posted to Well:'' @ str_int well_id)) s2)))"

definition find_well :: "string \<Rightarrow> int \<Rightarrow> int \<Rightarrow> omero \<Rightarrow> (error + int) \<times> omero" where
  "find_well plate_name row_index col_index s =
     (case get_plate_id plate_name s of
        (Inl e, s1) \<Rightarrow> (Inl e, s1)
      | (Inr plate_id, s1) \<Rightarrow>
          (case get_well_id plate_id row_index col_index s1 of
             (None, s2) \<Rightarrow>
               (Inl (ValueError (''No well found at plate:'' @ str_int plate_id @
                                 '', row_index:'' @ str_int row_index @
                                 '', col_index:'' @ str_int col_index)), s2)
           | (Some well_id, s2) \<Rightarrow> (Inr well_id, s2)))"

definition parse_row :: "pydict \<Rightarrow> error + (string \<times> int \<times> int \<times> pydict)" where
  "parse_row record =
     (case pop ''plate_name'' record of
        Inl e \<Rightarrow> Inl e
      | Inr (name_cell, record1) \<Rightarrow>
     (case pop ''row'' record1 of
        Inl e \<Rightarrow> Inl e
      | Inr (row_cell, record2) \<Rightarrow>
     (case minus_one row_cell of
        Inl e \<Rightarrow> Inl e
      | Inr row_index \<Rightarrow>
     (case pop ''column'' record2 of
        Inl e \<Rightarrow> Inl e
      | Inr (col_cell, record3) \<Rightarrow>
     (case minus_one col_cell of
        Inl e \<Rightarrow> Inl e
      | Inr col_index \<Rightarrow>
     (case as_str name_cell of
        Inl e \<Rightarrow> Inl e
      | Inr plate_name \<Rightarrow> Inr (plate_name, row_index, col_index, record3)))))))"

definition loop_body :: "bool \<Rightarrow> pydict \<Rightarrow> omero \<Rightarrow> error option \<times> omero" where
  "loop_body force record s =
     (case parse_row record of
        Inl e \<Rightarrow> (Some e, s)
      | Inr (plate_name, row_index, col_index, payload) \<Rightarrow>
          (case find_well plate_name row_index col_index s of
             (Inl e, s1) \<Rightarrow> (Some e, s1)
           | (Inr well_id, s1) \<Rightarrow> annotate_well force well_id payload s1))"

text \<open>The loop over the rows: an exception ends it, with the writes made so far.\<close>

fun for_rows :: "bool \<Rightarrow> pydict list \<Rightarrow> omero \<Rightarrow> error option \<times> omero" where
  "for_rows force [] s = (None, s)"
| "for_rows force (record # rest) s =
     (case loop_body force record s of
        (Some e, s') \<Rightarrow> (Some e, s')
      | (None, s') \<Rightarrow> for_rows force rest s')"

definition main :: "dataframe \<Rightarrow> bool \<Rightarrow> omero \<Rightarrow> error option \<times> omero" where
  "main df force s =
     (let s0 = emit Connect s in
      case find (\<lambda>col. col \<notin> set (columns df)) (map fst DTYPES) of
        Some col \<Rightarrow> (Some (ValueError (''csv missing column '' @ col)), s0)
      | None \<Rightarrow>
          (case for_rows force (iterrows df) s0 of
             (Some e, s1) \<Rightarrow> (Some e, s1)
           | (None, s1) \<Rightarrow> (None, emit Close s1)))"

section \<open>Plate resolution and the column check\<close>

lemma emit_fields [simp]:
  "plates (emit e s) = plates s"
  "wells (emit e s) = wells s"
  "annotations (emit e s) = annotations s"
  "trace (emit e s) = trace s @ [e]"
  by (simp_all add: emit_def)

lemma get_plate_id_state: "snd (get_plate_id name s) = emit (Projection name) s"
  by (simp add: get_plate_id_def projection_def)

lemma get_plate_id_none:
  "filter (\<lambda>pl. pl_name pl = name) (plates s) = [] \<Longrightarrow>
   get_plate_id name s =
     (Inl (ValueError (''No plate found with name '' @ name)), emit (Projection name) s)"
  by (simp add: get_plate_id_def projection_def)

lemma get_plate_id_one:
  "filter (\<lambda>pl. pl_name pl = name) (plates s) = [pl] \<Longrightarrow>
   get_plate_id name s = (Inr (pl_id pl), emit (Projection name) s)"
  by (simp add: get_plate_id_def projection_def)

lemma get_plate_id_many:
  "2 \<le> length (filter (\<lambda>pl. pl_name pl = name) (plates s)) \<Longrightarrow>
   get_plate_id name s =
     (Inl (ValueError (''Multiple plates found with name '' @ name)), emit (Projection name) s)"
  by (cases "filter (\<lambda>pl. pl_name pl = name) (plates s)") (auto simp add: get_plate_id_def projection_def)

text \<open>
  Claim C5. \<open>get_plate_id\<close> returns an identifier exactly when one stored plate has
  the name, and then it is that plate's identifier. With no such plate it raises the
  "No plate found" error, with two or more the "Multiple plates found" error; both
  messages end with the name that was asked for.
\<close>

theorem get_plate_id_resolution:
  "(filter (\<lambda>pl. pl_name pl = name) (plates s) = [] \<longrightarrow>
      fst (get_plate_id name s) = Inl (ValueError (''No plate found with name '' @ name))) \<and>
   (2 \<le> length (filter (\<lambda>pl. pl_name pl = name) (plates s)) \<longrightarrow>
      fst (get_plate_id name s) = Inl (ValueError (''Multiple plates found with name '' @ name))) \<and>
   (\<forall>i. fst (get_plate_id name s) = Inr i \<longleftrightarrow>
      (\<exists>pl. filter (\<lambda>pl. pl_name pl = name) (plates s) = [pl] \<and> pl_id pl = i))"
proof (intro conjI impI allI)
  assume "filter (\<lambda>pl. pl_name pl = name) (plates s) = []"
  then show "fst (get_plate_id name s) = Inl (ValueError (''No plate found with name '' @ name))"
    by (simp add: get_plate_id_none)
next
  assume "2 \<le> length (filter (\<lambda>pl. pl_name pl = name) (plates s))"
  then show "fst (get_plate_id name s) = Inl (ValueError (''Multiple plates found with name '' @ name))"
    by (simp add: get_plate_id_many)
next
  fix i
  show "fst (get_plate_id name s) = Inr i \<longleftrightarrow>
      (\<exists>pl. filter (\<lambda>pl. pl_name pl = name) (plates s) = [pl] \<and> pl_id pl = i)"
  proof (cases "filter (\<lambda>pl. pl_name pl = name) (plates s)")
    case Nil
    then show ?thesis by (simp add: get_plate_id_none)
  next
    case (Cons p ps)
    show ?thesis
    proof (cases ps)
      case Nil
      with Cons show ?thesis by (simp add: get_plate_id_one)
    next
      case (Cons q qs)
      with \<open>filter (\<lambda>pl. pl_name pl = name) (plates s) = p # ps\<close> show ?thesis
        by (simp add: get_plate_id_many)
    qed
  qed
qed

theorem get_plate_id_resolution_witness:
  "fst (get_plate_id ''PlateA'' \<lparr>plates = [], wells = [], annotations = [], trace = []\<rparr>)
     = Inl (ValueError ''No plate found with name PlateA'') \<and>
   fst (get_plate_id ''PlateA''
          \<lparr>plates = [\<lparr>pl_id = 7, pl_name = ''PlateA''\<rparr>, \<lparr>pl_id = 8, pl_name = ''PlateB''\<rparr>],
           wells = [], annotations = [], trace = []\<rparr>) = Inr 7 \<and>
   fst (get_plate_id ''PlateA''
          \<lparr>plates = [\<lparr>pl_id = 7, pl_name = ''PlateA''\<rparr>, \<lparr>pl_id = 8, pl_name = ''PlateA''\<rparr>],
           wells = [], annotations = [], trace = []\<rparr>)
     = Inl (ValueError ''Multiple plates found with name PlateA'')"
  using get_plate_id_resolution [of "''PlateA''" "\<lparr>plates = [], wells = [], annotations = [], trace = []\<rparr>"]
    get_plate_id_resolution [of "''PlateA''"
      "\<lparr>plates = [\<lparr>pl_id = 7, pl_name = ''PlateA''\<rparr>, \<lparr>pl_id = 8, pl_name = ''PlateB''\<rparr>],
           wells = [], annotations = [], trace = []\<rparr>"]
    get_plate_id_resolution [of "''PlateA''"
      "\<lparr>plates = [\<lparr>pl_id = 7, pl_name = ''PlateA''\<rparr>, \<lparr>pl_id = 8, pl_name = ''PlateA''\<rparr>],
           wells = [], annotations = [], trace = []\<rparr>"]
  by simp

lemma for_rows_Nil_main:
  "find (\<lambda>col. col \<notin> set (columns df)) (map fst DTYPES) = None \<Longrightarrow> rows df = [] \<Longrightarrow>
   main df force s = (None, emit Close (emit Connect s))"
  by (simp add: main_def iterrows_def)

text \<open>
  Claim C10. A table that has the six required columns and no data row: the run ends
  without an exception, the server's tables are as before, and the only calls are the
  connection and its close - no plate, well or annotation call is made.
\<close>

theorem main_no_data_rows:
  assumes "set (map fst DTYPES) \<subseteq> set (columns df)" and "rows df = []"
  shows "main df force s = (None, s\<lparr>trace := trace s @ [Connect, Close]\<rparr>)"
proof -
  from assms(1) have "find (\<lambda>col. col \<notin> set (columns df)) (map fst DTYPES) = None"
    by (auto simp: find_None_iff)
  with assms(2) show ?thesis
    by (simp add: for_rows_Nil_main emit_def)
qed

theorem main_no_data_rows_witness:
  "main \<lparr>columns = [''plate_name'', ''row'', ''column'', ''individual'', ''concentration'', ''compound''],
         rows = []\<rparr> True
        \<lparr>plates = [\<lparr>pl_id = 7, pl_name = ''PlateA''\<rparr>], wells = [], annotations = [], trace = []\<rparr>
   = (None, \<lparr>plates = [\<lparr>pl_id = 7, pl_name = ''PlateA''\<rparr>], wells = [], annotations = [],
             trace = [Connect, Close]\<rparr>)"
  using main_no_data_rows [of
      "\<lparr>columns = [''plate_name'', ''row'', ''column'', ''individual'', ''concentration'', ''compound''],
         rows = []\<rparr>" True
      "\<lparr>plates = [\<lparr>pl_id = 7, pl_name = ''PlateA''\<rparr>], wells = [], annotations = [], trace = []\<rparr>"]
  by (simp add: DTYPES_def)

text \<open>
  Claim C7. When a required column is missing, the run ends with the error
  "csv missing column" naming a required column that the table lacks. Nothing but the
  connection has happened by then: no row was looked at, no plate or well was asked
  for, and the server's tables are as before.
\<close>

theorem main_missing_column:
  assumes "c \<in> set (map fst DTYPES)" and "c \<notin> set (columns df)"
  shows "\<exists>col. col \<in> set (map fst DTYPES) \<and> col \<notin> set (columns df) \<and>
           main df force s =
             (Some (ValueError (''csv missing column '' @ col)), s\<lparr>trace := trace s @ [Connect]\<rparr>)"
proof -
  from assms obtain col where f: "find (\<lambda>col. col \<notin> set (columns df)) (map fst DTYPES) = Some col"
    by (cases "find (\<lambda>col. col \<notin> set (columns df)) (map fst DTYPES)") (auto simp: find_None_iff)
  then have "col \<in> set (map fst DTYPES)" and "col \<notin> set (columns df)"
    by (auto simp: find_Some_iff)
  moreover from f have "main df force s =
      (Some (ValueError (''csv missing column '' @ col)), s\<lparr>trace := trace s @ [Connect]\<rparr>)"
    by (simp add: main_def emit_def)
  ultimately show ?thesis by blast
qed

theorem main_missing_column_witness:
  "main \<lparr>columns = [''plate_name'', ''row'', ''column'', ''individual'', ''compound''],
         rows = [[CStr ''PlateA'', CInt 1, CInt 1, CStr ''X'', CStr ''Y'']]\<rparr> False
        \<lparr>plates = [\<lparr>pl_id = 7, pl_name = ''PlateA''\<rparr>],
         wells = [\<lparr>w_id = 11, w_plate = 7, w_row = 0, w_column = 0\<rparr>],
         annotations = [], trace = []\<rparr>
   = (Some (ValueError ''csv missing column concentration''),
      \<lparr>plates = [\<lparr>pl_id = 7, pl_name = ''PlateA''\<rparr>],
       wells = [\<lparr>w_id = 11, w_plate = 7, w_row = 0, w_column = 0\<rparr>],
       annotations = [], trace = [Connect]\<rparr>)"
  using main_missing_column [of "''concentration''"
      "\<lparr>columns = [''plate_name'', ''row'', ''column'', ''individual'', ''compound''],
         rows = [[CStr ''PlateA'', CInt 1, CInt 1, CStr ''X'', CStr ''Y'']]\<rparr>" False
      "\<lparr>plates = [\<lparr>pl_id = 7, pl_name = ''PlateA''\<rparr>],
         wells = [\<lparr>w_id = 11, w_plate = 7, w_row = 0, w_column = 0\<rparr>],
         annotations = [], trace = []\<rparr>"]
  by (auto simp: DTYPES_def)

section \<open>The loop body on one row\<close>

lemma fold_max_bounds: "(a::int) \<le> fold max xs a \<and> (\<forall>x\<in>set xs. x \<le> fold max xs a)"
proof (induction xs arbitrary: a)
  case Nil
  show ?case by simp
next
  case (Cons y ys)
  have "max y a \<le> fold max ys (max y a)" and "\<forall>x\<in>set ys. x \<le> fold max ys (max y a)"
    using Cons.IH [of "max y a"] by simp_all
  then show ?case by auto
qed

lemma fresh_id_new: "fresh_id s \<notin> ma_id ` set (annotations s)"
proof
  assume "fresh_id s \<in> ma_id ` set (annotations s)"
  then have "fresh_id s \<in> set (map ma_id (annotations s))" by simp
  then have "fresh_id s \<le> fold max (map ma_id (annotations s)) 0"
    using fold_max_bounds [of 0 "map ma_id (annotations s)"] by blast
  then show False by (simp add: fresh_id_def)
qed

lemma query_ignores_trace [simp]:
  "fst (get_plate_id name (s\<lparr>trace := t\<rparr>)) = fst (get_plate_id name s)"
  "fst (get_well_id p r c (s\<lparr>trace := t\<rparr>)) = fst (get_well_id p r c s)"
  "fst (get_map_annotation_ids wid ns (s\<lparr>trace := t\<rparr>)) = fst (get_map_annotation_ids wid ns s)"
  "fresh_id (s\<lparr>trace := t\<rparr>) = fresh_id s"
  by (simp_all add: get_plate_id_def projection_def get_well_id_def get_map_annotation_ids_def
      fresh_id_def split: list.splits)

lemma get_plate_id_unfold:
  "get_plate_id name s = (fst (get_plate_id name s), s\<lparr>trace := trace s @ [Projection name]\<rparr>)"
  by (simp add: get_plate_id_def projection_def emit_def)

lemma get_well_id_unfold:
  "get_well_id p r c s = (fst (get_well_id p r c s), s\<lparr>trace := trace s @ [GetWellId p r c]\<rparr>)"
  by (simp add: get_well_id_def emit_def split: list.splits)

lemma get_map_annotation_ids_unfold:
  "get_map_annotation_ids wid ns s =
     (fst (get_map_annotation_ids wid ns s), s\<lparr>trace := trace s @ [GetMapAnnotationIds wid ns]\<rparr>)"
  by (simp add: get_map_annotation_ids_def emit_def)

lemma find_well_unfold:
  "find_well name ri ci s =
     (case fst (get_plate_id name s) of
        Inl e \<Rightarrow> (Inl e, s\<lparr>trace := trace s @ [Projection name]\<rparr>)
      | Inr pid \<Rightarrow>
          (case fst (get_well_id pid ri ci s) of
             None \<Rightarrow>
               (Inl (ValueError (''No well found at plate:'' @ str_int pid @
                                 '', row_index:'' @ str_int ri @
                                 '', col_index:'' @ str_int ci)),
                s\<lparr>trace := trace s @ [Projection name, GetWellId pid ri ci]\<rparr>)
           | Some wid \<Rightarrow>
               (Inr wid, s\<lparr>trace := trace s @ [Projection name, GetWellId pid ri ci]\<rparr>)))"
  unfolding find_well_def
  by (subst get_plate_id_unfold, simp split: sum.splits option.splits,
      intro allI impI conjI; subst get_well_id_unfold; simp)

lemma annotate_well_unfold:
  "annotate_well force wid kv s =
     (case fst (get_map_annotation_ids wid NAMESPACE s) of
        [] \<Rightarrow>
          (None, s\<lparr>annotations := annotations s @
                      [\<lparr>ma_id = fresh_id s, ma_ns = NAMESPACE, ma_well = wid, ma_kv = kv\<rparr>],
                    trace := trace s @
                      [GetMapAnnotationIds wid NAMESPACE,
                       PostMapAnnotation wid kv NAMESPACE,
                       Print (''New MapAnnotation:'' @ str_int (fresh_id s) @
                              '' posted to Well:'' @ str_int wid)]\<rparr>)
      | i # others \<Rightarrow>
          if force then
            (None, s\<lparr>annotations := map (\<lambda>a. if ma_id a = i then a\<lparr>ma_kv := kv\<rparr> else a) (annotations s),
                      trace := trace s @
                        [GetMapAnnotationIds wid NAMESPACE,
                         Warning (''MapAnnotation with namespace:'' @ NAMESPACE @
                                  '' already exists for well:'' @ str_int wid),
                         Warning (''Forcing update of MapAnnotation:'' @ str_int i @
                                  '' for well:'' @ str_int wid),
                         PutMapAnnotation i kv]\<rparr>)
          else
            (None, s\<lparr>trace := trace s @
                        [GetMapAnnotationIds wid NAMESPACE,
                         Warning (''MapAnnotation with namespace:'' @ NAMESPACE @
                                  '' already exists for well:'' @ str_int wid),
                         Warning (''Skipping MapAnnotation for well:'' @ str_int wid)]\<rparr>))"
  unfolding annotate_well_def
  by (subst get_map_annotation_ids_unfold)
     (simp add: post_map_annotation_def put_map_annotation_def emit_def Let_def split: list.splits)

lemma parse_row_ok:
  assumes "map_of record ''plate_name'' = Some (CStr name)"
    and "map_of record ''row'' = Some (CInt r)"
    and "map_of record ''column'' = Some (CInt c)"
  shows "parse_row record =
           Inr (name, r - 1, c - 1,
                filter (\<lambda>(k, v). k \<notin> {''plate_name'', ''row'', ''column''}) record)"
proof -
  have "AList.delete ''column'' (AList.delete ''row'' (AList.delete ''plate_name'' record)) =
        filter (\<lambda>(k, v). k \<notin> {''plate_name'', ''row'', ''column''}) record"
    by (induction "record") (auto simp: AList.delete_eq)
  with assms show ?thesis
    by (simp add: parse_row_def pop_def minus_one_def as_str_def)
qed

lemma loop_body_found:
  assumes "parse_row record = Inr (name, ri, ci, kv)"
    and "fst (get_plate_id name s) = Inr pid"
    and "fst (get_well_id pid ri ci s) = Some wid"
  shows "loop_body force record s =
           annotate_well force wid kv (s\<lparr>trace := trace s @ [Projection name, GetWellId pid ri ci]\<rparr>)"
  using assms by (simp add: loop_body_def find_well_unfold)

section \<open>Forced updates\<close>

lemma put_keeps_keys:
  "map ma_id (map (\<lambda>a. if ma_id a = i then a\<lparr>ma_kv := kv\<rparr> else a) as) = map ma_id as"
  "map ma_well (map (\<lambda>a. if ma_id a = i then a\<lparr>ma_kv := kv\<rparr> else a) as) = map ma_well as"
  "map ma_ns (map (\<lambda>a. if ma_id a = i then a\<lparr>ma_kv := kv\<rparr> else a) as) = map ma_ns as"
  by (induction as) auto

lemma put_filter_commute:
  "filter (\<lambda>a. ma_well a = wid \<and> ma_ns a = ns)
     (map (\<lambda>a. if ma_id a = i then a\<lparr>ma_kv := kv\<rparr> else a) as) =
   map (\<lambda>a. if ma_id a = i then a\<lparr>ma_kv := kv\<rparr> else a)
     (filter (\<lambda>a. ma_well a = wid \<and> ma_ns a = ns) as)"
  by (induction as) auto

lemma put_keeps_others:
  "filter (\<lambda>a. ma_id a \<noteq> i) (map (\<lambda>a. if ma_id a = i then a\<lparr>ma_kv := kv\<rparr> else a) as) =
   filter (\<lambda>a. ma_id a \<noteq> i) as"
  by (induction as) auto

lemma put_absent:
  "i \<notin> ma_id ` set as \<Longrightarrow> map (\<lambda>a. if ma_id a = i then a\<lparr>ma_kv := kv\<rparr> else a) as = as"
  by (induction as) auto

lemma ids_after_put:
  "fst (get_map_annotation_ids wid ns
          (s\<lparr>annotations := map (\<lambda>a. if ma_id a = i then a\<lparr>ma_kv := kv\<rparr> else a) (annotations s)\<rparr>)) =
   fst (get_map_annotation_ids wid ns s)"
  by (simp add: get_map_annotation_ids_def put_filter_commute put_keeps_keys)

lemma loop_body_forced:
  assumes "parse_row record = Inr (name, ri, ci, kv)"
    and "fst (get_plate_id name s) = Inr pid"
    and "fst (get_well_id pid ri ci s) = Some wid"
    and "fst (get_map_annotation_ids wid NAMESPACE s) = i # others"
  shows "loop_body True record s =
           (None,
            s\<lparr>annotations := map (\<lambda>a. if ma_id a = i then a\<lparr>ma_kv := kv\<rparr> else a) (annotations s),
              trace := trace s @
                [Projection name, GetWellId pid ri ci, GetMapAnnotationIds wid NAMESPACE,
                 Warning (''MapAnnotation with namespace:'' @ NAMESPACE @
                          '' already exists for well:'' @ str_int wid),
                 Warning (''Forcing update of MapAnnotation:'' @ str_int i @
                          '' for well:'' @ str_int wid),
                 PutMapAnnotation i kv]\<rparr>)"
  using assms(4) by (simp add: loop_body_found [OF assms(1-3)] annotate_well_unfold)

lemma put_one_payload:
  "ma_id (if ma_id b = i then b\<lparr>ma_kv := kv\<rparr> else b) = i \<Longrightarrow>
   ma_kv (if ma_id b = i then b\<lparr>ma_kv := kv\<rparr> else b) = kv"
  by (cases "ma_id b = i") simp_all

lemma put_sets_payload:
  "\<forall>a \<in> set (map (\<lambda>a. if ma_id a = i then a\<lparr>ma_kv := kv\<rparr> else a) as).
     ma_id a = i \<longrightarrow> ma_kv a = kv"
proof (intro ballI impI)
  fix a
  assume "a \<in> set (map (\<lambda>a. if ma_id a = i then a\<lparr>ma_kv := kv\<rparr> else a) as)"
    and id: "ma_id a = i"
  then obtain b where "a = (if ma_id b = i then b\<lparr>ma_kv := kv\<rparr> else b)"
    by (auto simp only: set_map image_iff)
  with id show "ma_kv a = kv" using put_one_payload [of b i kv] by simp
qed

lemma ids_member:
  "i \<in> set (fst (get_map_annotation_ids wid ns s)) \<Longrightarrow>
   \<exists>a \<in> set (annotations s). ma_id a = i \<and> ma_well a = wid \<and> ma_ns a = ns"
  by (auto simp: get_map_annotation_ids_def)

lemma loop_body_forced_facts:
  assumes "parse_row record = Inr (name, ri, ci, kv)"
    and "fst (get_plate_id name s) = Inr pid"
    and "fst (get_well_id pid ri ci s) = Some wid"
    and "fst (get_map_annotation_ids wid NAMESPACE s) = i # others"
  shows "fst (loop_body True record s) = None"
    and "annotations (snd (loop_body True record s)) =
           map (\<lambda>a. if ma_id a = i then a\<lparr>ma_kv := kv\<rparr> else a) (annotations s)"
    and "fst (get_map_annotation_ids wid NAMESPACE (snd (loop_body True record s))) = i # others"
    and "trace (snd (loop_body True record s)) =
           trace s @
             [Projection name, GetWellId pid ri ci, GetMapAnnotationIds wid NAMESPACE,
              Warning (''MapAnnotation with namespace:'' @ NAMESPACE @
                       '' already exists for well:'' @ str_int wid),
              Warning (''Forcing update of MapAnnotation:'' @ str_int i @
                       '' for well:'' @ str_int wid),
              PutMapAnnotation i kv]"
    and "plates (snd (loop_body True record s)) = plates s"
    and "wells (snd (loop_body True record s)) = wells s"
  using assms(4) by (simp_all add: loop_body_forced [OF assms] ids_after_put)

lemma loop_body_forced_keeps:
  assumes "map_of record ''plate_name'' = Some (CStr name)"
    and "map_of record ''row'' = Some (CInt r)"
    and "map_of record ''column'' = Some (CInt c)"
    and "fst (get_plate_id name s) = Inr pid"
    and "fst (get_well_id pid (r - 1) (c - 1) s) = Some wid"
    and "fst (get_map_annotation_ids wid NAMESPACE s) = i # others"
  shows "fst (loop_body True record s) = None \<and>
         map ma_id (annotations (snd (loop_body True record s))) = map ma_id (annotations s) \<and>
         map ma_well (annotations (snd (loop_body True record s))) = map ma_well (annotations s) \<and>
         map ma_ns (annotations (snd (loop_body True record s))) = map ma_ns (annotations s) \<and>
         fst (get_map_annotation_ids wid NAMESPACE (snd (loop_body True record s))) = i # others \<and>
         (\<forall>a \<in> set (annotations (snd (loop_body True record s))).
            ma_id a = i \<longrightarrow>
              ma_kv a = filter (\<lambda>(k, v). k \<notin> {''plate_name'', ''row'', ''column''}) record) \<and>
         (\<exists>a \<in> set (annotations (snd (loop_body True record s))).
            ma_id a = i \<and> ma_well a = wid \<and> ma_ns a = NAMESPACE) \<and>
         trace (snd (loop_body True record s)) =
           trace s @
             [Projection name, GetWellId pid (r - 1) (c - 1), GetMapAnnotationIds wid NAMESPACE,
              Warning (''MapAnnotation with namespace:'' @ NAMESPACE @
                       '' already exists for well:'' @ str_int wid),
              Warning (''Forcing update of MapAnnotation:'' @ str_int i @
                       '' for well:'' @ str_int wid),
              PutMapAnnotation i
                (filter (\<lambda>(k, v). k \<notin> {''plate_name'', ''row'', ''column''}) record)]"
proof -
  let ?kv = "filter (\<lambda>(k, v). k \<notin> {''plate_name'', ''row'', ''column''}) record"
  let ?s' = "snd (loop_body True record s)"
  have p: "parse_row record = Inr (name, r - 1, c - 1, ?kv)"
    using assms(1-3) by (rule parse_row_ok)
  note f = loop_body_forced_facts [OF p assms(4-6)]
  have all: "\<forall>a \<in> set (annotations ?s'). ma_id a = i \<longrightarrow> ma_kv a = ?kv"
    unfolding f(2) by (rule put_sets_payload)
  have "i \<in> set (fst (get_map_annotation_ids wid NAMESPACE ?s'))"
    unfolding f(3) by simp
  then have ex: "\<exists>a \<in> set (annotations ?s'). ma_id a = i \<and> ma_well a = wid \<and> ma_ns a = NAMESPACE"
    by (rule ids_member)
  have k1: "map ma_id (annotations ?s') = map ma_id (annotations s)"
    unfolding f(2) by (rule put_keeps_keys)
  have k2: "map ma_well (annotations ?s') = map ma_well (annotations s)"
    unfolding f(2) by (rule put_keeps_keys)
  have k3: "map ma_ns (annotations ?s') = map ma_ns (annotations s)"
    unfolding f(2) by (rule put_keeps_keys)
  from f(1) k1 k2 k3 f(3) all ex f(4) show ?thesis
    by (intro conjI)
qed

lemma put_keeps_positions:
  "k < length as \<Longrightarrow> ma_id (as ! k) \<noteq> i \<Longrightarrow>
   map (\<lambda>a. if ma_id a = i then a\<lparr>ma_kv := kv\<rparr> else a) as ! k = as ! k"
  by simp

lemma first_of_well:
  assumes "fst (get_map_annotation_ids wid ns s) = i # others"
  shows "\<exists>a0 rest. filter (\<lambda>a. ma_well a = wid \<and> ma_ns a = ns) (annotations s) = a0 # rest \<and>
           ma_id a0 = i \<and> map ma_id rest = others"
  using assms by (auto simp: get_map_annotation_ids_def map_eq_Cons_conv)

text \<open>
  Claim C9. With \<open>--force\<close> and several annotations under the namespace on the well,
  the only write is one \<open>put_map_annotation\<close> on the first identifier the query
  returned. Every annotation with another identifier is afterwards what it was before,
  at the same place in the server's table. Where identifiers are unique, the
  annotations on the well under the namespace are afterwards the first one with the new
  payload, followed by the others unchanged.
\<close>

theorem loop_body_force_updates_first_only:
  assumes "map_of record ''plate_name'' = Some (CStr name)"
    and "map_of record ''row'' = Some (CInt r)"
    and "map_of record ''column'' = Some (CInt c)"
    and "fst (get_plate_id name s) = Inr pid"
    and "fst (get_well_id pid (r - 1) (c - 1) s) = Some wid"
    and "fst (get_map_annotation_ids wid NAMESPACE s) = i # others"
  shows "(\<forall>k < length (annotations s).
            ma_id (annotations s ! k) \<noteq> i \<longrightarrow>
              annotations (snd (loop_body True record s)) ! k = annotations s ! k) \<and>
         filter (\<lambda>a. ma_id a \<noteq> i) (annotations (snd (loop_body True record s))) =
           filter (\<lambda>a. ma_id a \<noteq> i) (annotations s) \<and>
         (\<forall>j kv. PutMapAnnotation j kv \<in>
                   set (drop (length (trace s)) (trace (snd (loop_body True record s)))) \<longrightarrow>
                 j = i) \<and>
         (distinct (map ma_id (annotations s)) \<longrightarrow>
            (\<exists>a0 rest.
               filter (\<lambda>a. ma_well a = wid \<and> ma_ns a = NAMESPACE) (annotations s) = a0 # rest \<and>
               ma_id a0 = i \<and>
               filter (\<lambda>a. ma_well a = wid \<and> ma_ns a = NAMESPACE)
                 (annotations (snd (loop_body True record s))) =
                 a0\<lparr>ma_kv := filter (\<lambda>(k, v). k \<notin> {''plate_name'', ''row'', ''column''}) record\<rparr>
                 # rest))"
proof -
  let ?kv = "filter (\<lambda>(k, v). k \<notin> {''plate_name'', ''row'', ''column''}) record"
  let ?s' = "snd (loop_body True record s)"
  let ?on = "\<lambda>a. ma_well a = wid \<and> ma_ns a = NAMESPACE"
  let ?upd = "\<lambda>a. if ma_id a = i then a\<lparr>ma_kv := ?kv\<rparr> else a"
  have p: "parse_row record = Inr (name, r - 1, c - 1, ?kv)"
    using assms(1-3) by (rule parse_row_ok)
  note f = loop_body_forced_facts [OF p assms(4-6)]
  have pos: "\<forall>k < length (annotations s).
      ma_id (annotations s ! k) \<noteq> i \<longrightarrow> annotations ?s' ! k = annotations s ! k"
    unfolding f(2) by (intro allI impI) (rule put_keeps_positions)
  have oth: "filter (\<lambda>a. ma_id a \<noteq> i) (annotations ?s') = filter (\<lambda>a. ma_id a \<noteq> i) (annotations s)"
    unfolding f(2) by (rule put_keeps_others)
  have puts: "\<forall>j kv. PutMapAnnotation j kv \<in> set (drop (length (trace s)) (trace ?s')) \<longrightarrow> j = i"
    unfolding f(4) by simp
  have dis: "distinct (map ma_id (annotations s)) \<longrightarrow>
      (\<exists>a0 rest. filter ?on (annotations s) = a0 # rest \<and> ma_id a0 = i \<and>
         filter ?on (annotations ?s') = a0\<lparr>ma_kv := ?kv\<rparr> # rest)"
  proof
    assume d: "distinct (map ma_id (annotations s))"
    from first_of_well [OF assms(6)] obtain a0 rest
      where fr: "filter ?on (annotations s) = a0 # rest" and a0: "ma_id a0 = i"
      by blast
    from d have "distinct (map ma_id (filter ?on (annotations s)))"
      by (rule distinct_map_filter)
    with fr a0 have "i \<notin> ma_id ` set rest" by simp
    then have rest: "map ?upd rest = rest" by (rule put_absent)
    have "filter ?on (annotations ?s') = map ?upd (filter ?on (annotations s))"
      unfolding f(2) by (rule put_filter_commute)
    also have "\<dots> = ?upd a0 # map ?upd rest" by (simp only: fr list.map)
    also have "\<dots> = a0\<lparr>ma_kv := ?kv\<rparr> # rest" by (simp only: rest a0 simp_thms if_True)
    finally show "\<exists>a0 rest. filter ?on (annotations s) = a0 # rest \<and> ma_id a0 = i \<and>
         filter ?on (annotations ?s') = a0\<lparr>ma_kv := ?kv\<rparr> # rest"
      using fr a0 by blast
  qed
  from pos oth puts dis show ?thesis by (intro conjI)
qed

theorem loop_body_force_updates_first_only_witness:
  "annotations (snd (loop_body True
      [(''plate_name'', CStr ''PlateA''), (''row'', CInt 1), (''column'', CInt 1),
       (''individual'', CStr ''X''), (''concentration'', CFloat 0x3FE0000000000000),
       (''compound'', CStr ''Y'')]
      \<lparr>plates = [\<lparr>pl_id = 7, pl_name = ''PlateA''\<rparr>],
       wells = [\<lparr>w_id = 11, w_plate = 7, w_row = 0, w_column = 0\<rparr>],
       annotations = [\<lparr>ma_id = 5, ma_ns = NAMESPACE, ma_well = 11,
                        ma_kv = [(''individual'', CStr ''old'')]\<rparr>,
                      \<lparr>ma_id = 6, ma_ns = NAMESPACE, ma_well = 11,
                        ma_kv = [(''individual'', CStr ''other'')]\<rparr>],
       trace = []\<rparr>)) ! 1 =
   \<lparr>ma_id = 6, ma_ns = NAMESPACE, ma_well = 11, ma_kv = [(''individual'', CStr ''other'')]\<rparr>"
proof -
  let ?fields = "[(''plate_name'', CStr ''PlateA''), (''row'', CInt 1), (''column'', CInt 1),
                  (''individual'', CStr ''X''), (''concentration'', CFloat 0x3FE0000000000000),
                  (''compound'', CStr ''Y'')]"
  let ?s = "\<lparr>plates = [\<lparr>pl_id = 7, pl_name = ''PlateA''\<rparr>],
             wells = [\<lparr>w_id = 11, w_plate = 7, w_row = 0, w_column = 0\<rparr>],
             annotations = [\<lparr>ma_id = 5, ma_ns = NAMESPACE, ma_well = 11,
                              ma_kv = [(''individual'', CStr ''old'')]\<rparr>,
                            \<lparr>ma_id = 6, ma_ns = NAMESPACE, ma_well = 11,
                              ma_kv = [(''individual'', CStr ''other'')]\<rparr>],
             trace = []\<rparr>"
  have 1: "map_of ?fields ''plate_name'' = Some (CStr ''PlateA'')" by simp
  have 2: "map_of ?fields ''row'' = Some (CInt 1)" by simp
  have 3: "map_of ?fields ''column'' = Some (CInt 1)" by simp
  have 4: "fst (get_plate_id ''PlateA'' ?s) = Inr 7"
    by (simp add: get_plate_id_def projection_def)
  have 5: "fst (get_well_id 7 (1 - 1) (1 - 1) ?s) = Some 11"
    by (simp add: get_well_id_def)
  have 6: "fst (get_map_annotation_ids 11 NAMESPACE ?s) = 5 # [6]"
    by (simp add: get_map_annotation_ids_def)
  from loop_body_force_updates_first_only [OF 1 2 3 4 5 6]
  have "\<forall>k < length (annotations ?s).
          ma_id (annotations ?s ! k) \<noteq> 5 \<longrightarrow>
            annotations (snd (loop_body True ?fields ?s)) ! k = annotations ?s ! k"
    by (rule conjunct1)
  then have "annotations (snd (loop_body True ?fields ?s)) ! 1 = annotations ?s ! 1"
    by simp
  then show ?thesis by simp
qed

section \<open>Well lookups\<close>

lemma parse_row_indices:
  assumes "parse_row record = Inr (name, ri, ci, kv)"
    and "map_of record ''row'' = Some (CInt r)"
    and "map_of record ''column'' = Some (CInt c)"
  shows "ri = r - 1 \<and> ci = c - 1"
  using assms
  by (auto simp: parse_row_def pop_def minus_one_def as_str_def
      split: option.splits sum.splits cell.splits)

lemma parse_row_name:
  assumes "parse_row record = Inr (name, ri, ci, kv)"
  shows "\<exists>cell. map_of record ''plate_name'' = Some cell \<and> as_str cell = Inr name"
  using assms
  by (auto simp: parse_row_def pop_def minus_one_def
      split: option.splits sum.splits cell.splits)

lemma annotate_well_events:
  "\<exists>evs. trace (snd (annotate_well force wid kv s)) = trace s @ evs \<and>
          (\<forall>p a b. GetWellId p a b \<notin> set evs)"
  by (simp add: annotate_well_unfold split: list.splits)

lemma loop_body_events:
  assumes "parse_row record = Inr (name, ri, ci, kv)"
  shows "\<exists>evs. trace (snd (loop_body force record s)) = trace s @ evs \<and>
           (\<forall>p a b. GetWellId p a b \<in> set evs \<longrightarrow> a = ri \<and> b = ci) \<and>
           (\<forall>pid. fst (get_plate_id name s) = Inr pid \<longrightarrow> GetWellId pid ri ci \<in> set evs)"
proof (cases "fst (get_plate_id name s)")
  case (Inl e)
  with assms have "trace (snd (loop_body force record s)) = trace s @ [Projection name]"
    by (simp add: loop_body_def find_well_unfold)
  with Inl show ?thesis by simp
next
  case (Inr pid)
  show ?thesis
  proof (cases "fst (get_well_id pid ri ci s)")
    case None
    with assms Inr have
      "trace (snd (loop_body force record s)) = trace s @ [Projection name, GetWellId pid ri ci]"
      by (simp add: loop_body_def find_well_unfold)
    with Inr show ?thesis by simp
  next
    case (Some wid)
    let ?s1 = "s\<lparr>trace := trace s @ [Projection name, GetWellId pid ri ci]\<rparr>"
    have eq: "loop_body force record s = annotate_well force wid kv ?s1"
      using assms Inr Some by (rule loop_body_found)
    from annotate_well_events [of force wid kv ?s1] obtain evs
      where t: "trace (snd (annotate_well force wid kv ?s1)) = trace ?s1 @ evs"
        and n: "\<forall>p a b. GetWellId p a b \<notin> set evs"
      by blast
    from t have "trace (snd (loop_body force record s)) =
        trace s @ (Projection name # GetWellId pid ri ci # evs)"
      by (simp add: eq)
    moreover from n have "\<forall>p a b. GetWellId p a b \<in> set (Projection name # GetWellId pid ri ci # evs)
        \<longrightarrow> a = ri \<and> b = ci"
      by simp
    moreover have "\<forall>pid'. fst (get_plate_id name s) = Inr pid' \<longrightarrow>
        GetWellId pid' ri ci \<in> set (Projection name # GetWellId pid ri ci # evs)"
      using Inr by simp
    ultimately show ?thesis by blast
  qed
qed

lemma loop_body_well_lookup:
  assumes "map_of record ''row'' = Some (CInt r)"
    and "map_of record ''column'' = Some (CInt c)"
  shows "(\<forall>p a b. GetWellId p a b \<in>
                   set (drop (length (trace s)) (trace (snd (loop_body force record s)))) \<longrightarrow>
                 a = r - 1 \<and> b = c - 1) \<and>
         (\<forall>name pid. map_of record ''plate_name'' = Some (CStr name) \<longrightarrow>
                     fst (get_plate_id name s) = Inr pid \<longrightarrow>
                     GetWellId pid (r - 1) (c - 1) \<in>
                       set (drop (length (trace s)) (trace (snd (loop_body force record s)))))"
proof (cases "parse_row record")
  case (Inl e)
  then have "loop_body force record s = (Some e, s)" by (simp add: loop_body_def)
  moreover have "\<forall>name. map_of record ''plate_name'' \<noteq> Some (CStr name)"
  proof (intro allI notI)
    fix name assume "map_of record ''plate_name'' = Some (CStr name)"
    from parse_row_ok [OF this assms] Inl show False by simp
  qed
  ultimately show ?thesis by simp
next
  case (Inr q)
  then obtain name ri ci kv where q: "parse_row record = Inr (name, ri, ci, kv)"
    by (cases q) auto
  from parse_row_indices [OF q assms] have ix: "ri = r - 1" "ci = c - 1" by simp_all
  from loop_body_events [OF q, of force s] obtain evs
    where t: "trace (snd (loop_body force record s)) = trace s @ evs"
      and only: "\<forall>p a b. GetWellId p a b \<in> set evs \<longrightarrow> a = ri \<and> b = ci"
      and made: "\<forall>pid. fst (get_plate_id name s) = Inr pid \<longrightarrow> GetWellId pid ri ci \<in> set evs"
    by blast
  have d: "drop (length (trace s)) (trace (snd (loop_body force record s))) = evs"
    by (simp add: t)
  from parse_row_name [OF q] have nm:
    "\<forall>name'. map_of record ''plate_name'' = Some (CStr name') \<longrightarrow> name' = name"
    by (auto simp: as_str_def)
  show ?thesis
    unfolding d using only made nm ix by auto
qed

section \<open>The loop over the rows\<close>

lemma query_cong:
  "plates t = plates s \<Longrightarrow> fst (get_plate_id name t) = fst (get_plate_id name s)"
  "wells t = wells s \<Longrightarrow> fst (get_well_id p ri ci t) = fst (get_well_id p ri ci s)"
  "annotations t = annotations s \<Longrightarrow>
     fst (get_map_annotation_ids wid ns t) = fst (get_map_annotation_ids wid ns s)"
  by (simp_all add: get_plate_id_def projection_def get_well_id_def get_map_annotation_ids_def
      split: list.splits)

lemma annotate_well_result: "fst (annotate_well force wid kv s) = None"
  by (simp add: annotate_well_unfold split: list.splits)

lemma annotate_well_tables:
  "plates (snd (annotate_well force wid kv s)) = plates s"
  "wells (snd (annotate_well force wid kv s)) = wells s"
  by (simp_all add: annotate_well_unfold split: list.splits)

lemma ids_after_post:
  "fst (get_map_annotation_ids w ns
          (s\<lparr>annotations := annotations s @
                [\<lparr>ma_id = n, ma_ns = ns', ma_well = wid, ma_kv = kv\<rparr>]\<rparr>)) =
   fst (get_map_annotation_ids w ns s) @ (if w = wid \<and> ns = ns' then [n] else [])"
  by (simp add: get_map_annotation_ids_def)

lemma annotate_well_ids:
  "fst (get_map_annotation_ids w ns (snd (annotate_well force wid kv s))) =
     (if fst (get_map_annotation_ids wid NAMESPACE s) = [] \<and> w = wid \<and> ns = NAMESPACE
      then [fresh_id s] else fst (get_map_annotation_ids w ns s))"
proof (cases "fst (get_map_annotation_ids wid NAMESPACE s)")
  case Nil
  then show ?thesis
    by (simp add: annotate_well_unfold ids_after_post)
next
  case (Cons i others)
  then show ?thesis
    by (simp add: annotate_well_unfold ids_after_put)
qed

lemma loop_body_tables:
  "plates (snd (loop_body force record s)) = plates s"
  "wells (snd (loop_body force record s)) = wells s"
  by (simp_all add: loop_body_def find_well_unfold annotate_well_tables
      split: sum.splits option.splits prod.splits)

lemma loop_body_ids:
  "fst (get_map_annotation_ids w ns (snd (loop_body force record s))) =
     fst (get_map_annotation_ids w ns s) \<or>
   (fst (get_map_annotation_ids w ns s) = [] \<and> ns = NAMESPACE \<and>
    fst (get_map_annotation_ids w ns (snd (loop_body force record s))) = [fresh_id s])"
  by (simp add: loop_body_def find_well_unfold annotate_well_ids
      split: sum.splits option.splits prod.splits)

lemma for_rows_append:
  "for_rows force (xs @ ys) s =
     (case for_rows force xs s of
        (Some e, s') \<Rightarrow> (Some e, s')
      | (None, s') \<Rightarrow> for_rows force ys s')"
  by (induction xs arbitrary: s) (simp_all split: prod.splits option.splits)

lemma for_rows_tables:
  "plates (snd (for_rows force rs s)) = plates s \<and> wells (snd (for_rows force rs s)) = wells s"
proof (induction rs arbitrary: s)
  case Nil
  show ?case by simp
next
  case (Cons r rs)
  show ?case
  proof (cases "loop_body force r s")
    case (Pair res s')
    then have s': "s' = snd (loop_body force r s)" by simp
    show ?thesis
    proof (cases res)
      case None
      with Pair have "for_rows force (r # rs) s = for_rows force rs s'" by simp
      with Cons.IH [of s'] show ?thesis by (simp add: s' loop_body_tables)
    next
      case (Some e)
      with Pair have "for_rows force (r # rs) s = (Some e, s')" by simp
      then show ?thesis by (simp add: s' loop_body_tables)
    qed
  qed
qed

lemma for_rows_ids:
  "length (fst (get_map_annotation_ids w ns (snd (for_rows force rs s)))) \<le>
     max 1 (length (fst (get_map_annotation_ids w ns s))) \<and>
   (fst (get_map_annotation_ids w ns s) \<noteq> [] \<longrightarrow>
      fst (get_map_annotation_ids w ns (snd (for_rows force rs s))) \<noteq> [])"
proof (induction rs arbitrary: s)
  case Nil
  show ?case by simp
next
  case (Cons r rs)
  let ?s' = "snd (loop_body force r s)"
  have step: "length (fst (get_map_annotation_ids w ns ?s')) \<le>
        max 1 (length (fst (get_map_annotation_ids w ns s))) \<and>
      (fst (get_map_annotation_ids w ns s) \<noteq> [] \<longrightarrow> fst (get_map_annotation_ids w ns ?s') \<noteq> [])"
    using loop_body_ids [of w ns force r s] by auto
  show ?case
  proof (cases "loop_body force r s")
    case (Pair res s')
    then have s': "s' = ?s'" by simp
    show ?thesis
    proof (cases res)
      case None
      with Pair have "for_rows force (r # rs) s = for_rows force rs ?s'" by simp
      with Cons.IH [of ?s'] step show ?thesis by auto
    next
      case (Some e)
      with Pair have "for_rows force (r # rs) s = (Some e, ?s')" by simp
      with step show ?thesis by simp
    qed
  qed
qed

section \<open>At most one annotation per well and namespace\<close>

lemma annotate_well_posts:
  "\<exists>evs. trace (snd (annotate_well force wid kv s)) = trace s @ evs \<and>
          (\<forall>w kv' ns. PostMapAnnotation w kv' ns \<in> set evs \<longrightarrow>
             fst (get_map_annotation_ids w NAMESPACE s) = [] \<and> ns = NAMESPACE)"
  by (simp add: annotate_well_unfold split: list.splits)

lemma loop_body_posts:
  "\<forall>w kv ns. PostMapAnnotation w kv ns \<in>
               set (drop (length (trace s)) (trace (snd (loop_body force record s)))) \<longrightarrow>
             fst (get_map_annotation_ids w NAMESPACE s) = [] \<and> ns = NAMESPACE"
proof (cases "parse_row record")
  case (Inl e)
  then show ?thesis by (simp add: loop_body_def)
next
  case (Inr q)
  then obtain name ri ci kv where q: "parse_row record = Inr (name, ri, ci, kv)"
    by (cases q) auto
  show ?thesis
  proof (cases "fst (get_plate_id name s)")
    case (Inl e)
    with q show ?thesis by (simp add: loop_body_def find_well_unfold)
  next
    case (Inr pid)
    show ?thesis
    proof (cases "fst (get_well_id pid ri ci s)")
      case None
      with q Inr show ?thesis by (simp add: loop_body_def find_well_unfold)
    next
      case (Some wid)
      let ?s1 = "s\<lparr>trace := trace s @ [Projection name, GetWellId pid ri ci]\<rparr>"
      have eq: "loop_body force record s = annotate_well force wid kv ?s1"
        using q Inr Some by (rule loop_body_found)
      from annotate_well_posts [of force wid kv ?s1] obtain evs
        where t: "trace (snd (annotate_well force wid kv ?s1)) = trace ?s1 @ evs"
          and n: "\<forall>w kv' ns. PostMapAnnotation w kv' ns \<in> set evs \<longrightarrow>
                    fst (get_map_annotation_ids w NAMESPACE ?s1) = [] \<and> ns = NAMESPACE"
        by blast
      from t have "drop (length (trace s)) (trace (snd (loop_body force record s))) =
          Projection name # GetWellId pid ri ci # evs"
        by (simp add: eq)
      with n show ?thesis by simp
    qed
  qed
qed

lemma main_ids:
  "length (fst (get_map_annotation_ids w ns (snd (main df force s)))) \<le>
     max 1 (length (fst (get_map_annotation_ids w ns s)))"
proof (cases "find (\<lambda>col. col \<notin> set (columns df)) (map fst DTYPES)")
  case (Some col)
  then show ?thesis by (simp add: main_def emit_def)
next
  case None
  let ?s0 = "s\<lparr>trace := trace s @ [Connect]\<rparr>"
  from for_rows_ids [of w ns force "iterrows df" ?s0]
  have b: "length (fst (get_map_annotation_ids w ns (snd (for_rows force (iterrows df) ?s0)))) \<le>
      max 1 (length (fst (get_map_annotation_ids w ns s)))"
    by simp
  show ?thesis
  proof (cases "for_rows force (iterrows df) ?s0")
    case (Pair res s1)
    with None b show ?thesis
      by (cases res) (simp_all add: main_def emit_def)
  qed
qed

text \<open>
  Claim C4. If the query for a well and a namespace returns at most one annotation
  before a row is processed, it returns at most one after it, and the same holds for a
  whole run. A \<open>post_map_annotation\<close> is only made under the fixed namespace and only
  for a well for which the query under that namespace returned nothing.
\<close>

theorem at_most_one_annotation_preserved:
  assumes "length (fst (get_map_annotation_ids w ns s)) \<le> 1"
  shows "length (fst (get_map_annotation_ids w ns (snd (loop_body force record s)))) \<le> 1 \<and>
         length (fst (get_map_annotation_ids w ns (snd (main df force s)))) \<le> 1 \<and>
         (\<forall>wid kv ns'. PostMapAnnotation wid kv ns' \<in>
                         set (drop (length (trace s)) (trace (snd (loop_body force record s)))) \<longrightarrow>
                       fst (get_map_annotation_ids wid NAMESPACE s) = [] \<and> ns' = NAMESPACE)"
proof (intro conjI)
  from loop_body_ids [of w ns force "record" s] assms
  show "length (fst (get_map_annotation_ids w ns (snd (loop_body force record s)))) \<le> 1"
    by auto
  from main_ids [of w ns df force s] assms
  show "length (fst (get_map_annotation_ids w ns (snd (main df force s)))) \<le> 1"
    by simp
  show "\<forall>wid kv ns'. PostMapAnnotation wid kv ns' \<in>
                         set (drop (length (trace s)) (trace (snd (loop_body force record s)))) \<longrightarrow>
                       fst (get_map_annotation_ids wid NAMESPACE s) = [] \<and> ns' = NAMESPACE"
    by (rule loop_body_posts)
qed

theorem at_most_one_annotation_preserved_witness:
  "length (fst (get_map_annotation_ids 11 NAMESPACE (snd (main
      \<lparr>columns = [''plate_name'', ''row'', ''column'', ''individual'', ''concentration'', ''compound''],
       rows = [[CStr ''PlateA'', CInt 1, CInt 1, CStr ''X'', CFloat 0x3FE0000000000000, CStr ''Y''],
               [CStr ''PlateA'', CInt 1, CInt 1, CStr ''Z'', CFloat 0x3FE0000000000000, CStr ''Y'']]\<rparr>
      True
      \<lparr>plates = [\<lparr>pl_id = 7, pl_name = ''PlateA''\<rparr>],
       wells = [\<lparr>w_id = 11, w_plate = 7, w_row = 0, w_column = 0\<rparr>],
       annotations = [], trace = []\<rparr>)))) \<le> 1"
proof -
  let ?s = "\<lparr>plates = [\<lparr>pl_id = 7, pl_name = ''PlateA''\<rparr>],
             wells = [\<lparr>w_id = 11, w_plate = 7, w_row = 0, w_column = 0\<rparr>],
             annotations = [], trace = []\<rparr>"
  have "length (fst (get_map_annotation_ids 11 NAMESPACE ?s)) \<le> 1"
    by (simp add: get_map_annotation_ids_def)
  from at_most_one_annotation_preserved [OF this] show ?thesis by blast
qed

section \<open>Lookup failures\<close>

lemma loop_body_continues_iff:
  assumes "parse_row record = Inr (name, ri, ci, kv)"
  shows "fst (loop_body force record s) = None \<longleftrightarrow>
           (\<exists>pid wid. fst (get_plate_id name s) = Inr pid \<and>
                       fst (get_well_id pid ri ci s) = Some wid)"
  using assms
  by (simp add: loop_body_def find_well_unfold annotate_well_result
      split: sum.splits option.splits prod.splits)

lemma loop_body_lookup_fails:
  assumes "parse_row record = Inr (name, ri, ci, kv)"
    and "\<not> (\<exists>pid wid. fst (get_plate_id name s) = Inr pid \<and>
                       fst (get_well_id pid ri ci s) = Some wid)"
  shows "\<exists>e. fst (loop_body force record s) = Some (ValueError e) \<and>
           annotations (snd (loop_body force record s)) = annotations s \<and>
           (trace (snd (loop_body force record s)) = trace s @ [Projection name] \<or>
            (\<exists>pid. trace (snd (loop_body force record s)) =
                      trace s @ [Projection name, GetWellId pid ri ci]))"
proof (cases "fst (get_plate_id name s)")
  case (Inl e)
  then obtain m where "e = ValueError m"
    by (cases "length (map pl_id (filter (\<lambda>pl. pl_name pl = name) (plates s))) = 0")
       (auto simp: get_plate_id_def projection_def split: if_splits)
  with Inl assms(1) show ?thesis
    by (simp add: loop_body_def find_well_unfold)
next
  case (Inr pid)
  with assms(2) have "fst (get_well_id pid ri ci s) = None"
    by (cases "fst (get_well_id pid ri ci s)") auto
  with Inr assms(1) show ?thesis
    by (simp add: loop_body_def find_well_unfold)
qed

text \<open>
  Claim C8. Take a table whose rows are some rows that were processed without an
  exception, then a row whose plate name does not resolve to exactly one plate or whose
  position has no well, then any further rows. The run ends with a \<open>ValueError\<close> at
  that row: the result and the final state are those of the loop body at that row,
  whatever the further rows are; the body has made no write and its last call is the
  lookup that failed, so no later row is touched and the connection is not closed. A
  row is passed without an exception exactly when its plate and its well resolve, so
  a well that already carries an annotation does not stop the run.
\<close>

theorem lookup_failure_aborts_run:
  assumes "set (map fst DTYPES) \<subseteq> set (columns df)"
    and "iterrows df = before @ record # after"
    and "for_rows force before (emit Connect s) = (None, s1)"
    and "map_of record ''plate_name'' = Some (CStr name)"
    and "map_of record ''row'' = Some (CInt r)"
    and "map_of record ''column'' = Some (CInt c)"
    and "\<not> (\<exists>pid wid. fst (get_plate_id name s1) = Inr pid \<and>
                       fst (get_well_id pid (r - 1) (c - 1) s1) = Some wid)"
  shows "(\<exists>e. main df force s = (Some (ValueError e), snd (loop_body force record s1))) \<and>
         annotations (snd (loop_body force record s1)) = annotations s1 \<and>
         (trace (snd (loop_body force record s1)) = trace s1 @ [Projection name] \<or>
          (\<exists>pid. trace (snd (loop_body force record s1)) =
                    trace s1 @ [Projection name, GetWellId pid (r - 1) (c - 1)])) \<and>
         (\<forall>s'. fst (loop_body force record s') = None \<longleftrightarrow>
                 (\<exists>pid wid. fst (get_plate_id name s') = Inr pid \<and>
                             fst (get_well_id pid (r - 1) (c - 1) s') = Some wid))"
proof -
  let ?kv = "filter (\<lambda>(k, v). k \<notin> {''plate_name'', ''row'', ''column''}) record"
  have p: "parse_row record = Inr (name, r - 1, c - 1, ?kv)"
    using assms(4-6) by (rule parse_row_ok)
  from loop_body_lookup_fails [OF p assms(7), of force] obtain e
    where e: "fst (loop_body force record s1) = Some (ValueError e)"
      and a: "annotations (snd (loop_body force record s1)) = annotations s1"
      and t: "trace (snd (loop_body force record s1)) = trace s1 @ [Projection name] \<or>
              (\<exists>pid. trace (snd (loop_body force record s1)) =
                        trace s1 @ [Projection name, GetWellId pid (r - 1) (c - 1)])"
    by blast
  from e have lb: "loop_body force record s1 = (Some (ValueError e), snd (loop_body force record s1))"
    by (cases "loop_body force record s1") simp
  have "for_rows force (record # after) s1 = (Some (ValueError e), snd (loop_body force record s1))"
    by (subst for_rows.simps, subst lb) simp
  with assms(3) have fr: "for_rows force (before @ record # after) (emit Connect s) =
      (Some (ValueError e), snd (loop_body force record s1))"
    by (simp add: for_rows_append)
  from assms(1) have "find (\<lambda>col. col \<notin> set (columns df)) (map fst DTYPES) = None"
    by (auto simp: find_None_iff)
  with fr assms(2) have m: "main df force s = (Some (ValueError e), snd (loop_body force record s1))"
    by (simp add: main_def)
  have iff: "\<forall>s'. fst (loop_body force record s') = None \<longleftrightarrow>
                 (\<exists>pid wid. fst (get_plate_id name s') = Inr pid \<and>
                             fst (get_well_id pid (r - 1) (c - 1) s') = Some wid)"
    using loop_body_continues_iff [OF p] by blast
  from m have "\<exists>e. main df force s = (Some (ValueError e), snd (loop_body force record s1))"
    by blast
  from this a t iff show ?thesis by (intro conjI)
qed

theorem lookup_failure_aborts_run_witness:
  "(\<exists>e. fst (main
      \<lparr>columns = [''plate_name'', ''row'', ''column'', ''individual'', ''concentration'', ''compound''],
       rows = [[CStr ''PlateB'', CInt 1, CInt 1, CStr ''X'', CFloat 0x3FE0000000000000, CStr ''Y''],
               [CStr ''PlateA'', CInt 1, CInt 1, CStr ''Z'', CFloat 0x3FE0000000000000, CStr ''Y'']]\<rparr>
      False
      \<lparr>plates = [\<lparr>pl_id = 7, pl_name = ''PlateA''\<rparr>],
       wells = [\<lparr>w_id = 11, w_plate = 7, w_row = 0, w_column = 0\<rparr>],
       annotations = [], trace = []\<rparr>) = Some (ValueError e)) \<and>
   annotations (snd (main
      \<lparr>columns = [''plate_name'', ''row'', ''column'', ''individual'', ''concentration'', ''compound''],
       rows = [[CStr ''PlateB'', CInt 1, CInt 1, CStr ''X'', CFloat 0x3FE0000000000000, CStr ''Y''],
               [CStr ''PlateA'', CInt 1, CInt 1, CStr ''Z'', CFloat 0x3FE0000000000000, CStr ''Y'']]\<rparr>
      False
      \<lparr>plates = [\<lparr>pl_id = 7, pl_name = ''PlateA''\<rparr>],
       wells = [\<lparr>w_id = 11, w_plate = 7, w_row = 0, w_column = 0\<rparr>],
       annotations = [], trace = []\<rparr>)) = []"
proof -
  let ?df = "\<lparr>columns = [''plate_name'', ''row'', ''column'', ''individual'', ''concentration'', ''compound''],
       rows = [[CStr ''PlateB'', CInt 1, CInt 1, CStr ''X'', CFloat 0x3FE0000000000000, CStr ''Y''],
               [CStr ''PlateA'', CInt 1, CInt 1, CStr ''Z'', CFloat 0x3FE0000000000000, CStr ''Y'']]\<rparr>"
  let ?s = "\<lparr>plates = [\<lparr>pl_id = 7, pl_name = ''PlateA''\<rparr>],
             wells = [\<lparr>w_id = 11, w_plate = 7, w_row = 0, w_column = 0\<rparr>],
             annotations = [], trace = []\<rparr>"
  let ?bad = "[(''plate_name'', CStr ''PlateB''), (''row'', CInt 1), (''column'', CInt 1),
               (''individual'', CStr ''X''), (''concentration'', CFloat 0x3FE0000000000000),
               (''compound'', CStr ''Y'')]"
  let ?good = "[(''plate_name'', CStr ''PlateA''), (''row'', CInt 1), (''column'', CInt 1),
                (''individual'', CStr ''Z''), (''concentration'', CFloat 0x3FE0000000000000),
                (''compound'', CStr ''Y'')]"
  have 1: "set (map fst DTYPES) \<subseteq> set (columns ?df)" by (simp add: DTYPES_def)
  have 2: "iterrows ?df = [] @ ?bad # [?good]" by (simp add: iterrows_def dict_def)
  have 3: "for_rows False [] (emit Connect ?s) = (None, emit Connect ?s)" by simp
  have 4: "map_of ?bad ''plate_name'' = Some (CStr ''PlateB'')" by simp
  have 5: "map_of ?bad ''row'' = Some (CInt 1)" by simp
  have 6: "map_of ?bad ''column'' = Some (CInt 1)" by simp
  have 7: "\<not> (\<exists>pid wid. fst (get_plate_id ''PlateB'' (emit Connect ?s)) = Inr pid \<and>
                           fst (get_well_id pid (1 - 1) (1 - 1) (emit Connect ?s)) = Some wid)"
    by (simp add: get_plate_id_def projection_def)
  note t = lookup_failure_aborts_run [OF 1 2 3 4 5 6 7]
  from t obtain e where m: "main ?df False ?s =
      (Some (ValueError e), snd (loop_body False ?bad (emit Connect ?s)))"
    by blast
  from t have a: "annotations (snd (loop_body False ?bad (emit Connect ?s))) =
      annotations (emit Connect ?s)"
    by blast
  from m a show ?thesis by simp
qed

section \<open>Running the script twice\<close>

lemma annotate_well_skip_annotations:
  "fst (get_map_annotation_ids wid NAMESPACE s) \<noteq> [] \<Longrightarrow>
   annotations (snd (annotate_well False wid kv s)) = annotations s"
  by (simp add: annotate_well_unfold split: list.splits)

lemma annotate_well_leaves_one:
  "fst (get_map_annotation_ids wid NAMESPACE (snd (annotate_well force wid kv s))) \<noteq> []"
  by (simp add: annotate_well_ids)

lemma loop_body_skips:
  assumes "parse_row record = Inr (name, ri, ci, kv)"
    and "fst (get_plate_id name s) = Inr pid"
    and "fst (get_well_id pid ri ci s) = Some wid"
    and "fst (get_map_annotation_ids wid NAMESPACE s) = i # others"
  shows "loop_body False record s =
           (None,
            s\<lparr>trace := trace s @
                [Projection name, GetWellId pid ri ci, GetMapAnnotationIds wid NAMESPACE,
                 Warning (''MapAnnotation with namespace:'' @ NAMESPACE @
                          '' already exists for well:'' @ str_int wid),
                 Warning (''Skipping MapAnnotation for well:'' @ str_int wid)]\<rparr>)"
  using assms(4) by (simp add: loop_body_found [OF assms(1-3)] annotate_well_unfold)

lemma loop_body_noforce_rerun:
  assumes "plates t = plates s" and "wells t = wells s"
    and "\<forall>wid. fst (get_map_annotation_ids wid NAMESPACE (snd (loop_body False record s))) \<noteq> [] \<longrightarrow>
               fst (get_map_annotation_ids wid NAMESPACE t) \<noteq> []"
  shows "fst (loop_body False record t) = fst (loop_body False record s) \<and>
         annotations (snd (loop_body False record t)) = annotations t"
proof (cases "parse_row record")
  case (Inl e)
  then show ?thesis by (simp add: loop_body_def)
next
  case (Inr q)
  then obtain name ri ci kv where q: "parse_row record = Inr (name, ri, ci, kv)"
    by (cases q) auto
  have pl: "fst (get_plate_id name t) = fst (get_plate_id name s)"
    using assms(1) by (rule query_cong)
  show ?thesis
  proof (cases "fst (get_plate_id name s)")
    case (Inl e)
    with q pl show ?thesis by (simp add: loop_body_def find_well_unfold)
  next
    case (Inr pid)
    have we: "fst (get_well_id pid ri ci t) = fst (get_well_id pid ri ci s)"
      using assms(2) by (rule query_cong)
    show ?thesis
    proof (cases "fst (get_well_id pid ri ci s)")
      case None
      with q pl we Inr show ?thesis by (simp add: loop_body_def find_well_unfold)
    next
      case (Some wid)
      let ?s1 = "s\<lparr>trace := trace s @ [Projection name, GetWellId pid ri ci]\<rparr>"
      let ?t1 = "t\<lparr>trace := trace t @ [Projection name, GetWellId pid ri ci]\<rparr>"
      have es: "loop_body False record s = annotate_well False wid kv ?s1"
        using q Inr Some by (rule loop_body_found)
      have "fst (get_plate_id name t) = Inr pid" "fst (get_well_id pid ri ci t) = Some wid"
        using pl we Inr Some by simp_all
      with q have et: "loop_body False record t = annotate_well False wid kv ?t1"
        by (rule loop_body_found)
      have "fst (get_map_annotation_ids wid NAMESPACE (snd (loop_body False record s))) \<noteq> []"
        unfolding es by (rule annotate_well_leaves_one)
      with assms(3) have "fst (get_map_annotation_ids wid NAMESPACE t) \<noteq> []" by blast
      then have "fst (get_map_annotation_ids wid NAMESPACE ?t1) \<noteq> []" by simp
      then have "annotations (snd (annotate_well False wid kv ?t1)) = annotations ?t1"
        by (rule annotate_well_skip_annotations)
      then show ?thesis by (simp add: es et annotate_well_result)
    qed
  qed
qed

lemma for_rows_noforce_rerun:
  assumes "plates t = plates s" and "wells t = wells s"
    and "\<forall>wid. fst (get_map_annotation_ids wid NAMESPACE (snd (for_rows False rs s))) \<noteq> [] \<longrightarrow>
               fst (get_map_annotation_ids wid NAMESPACE t) \<noteq> []"
  shows "fst (for_rows False rs t) = fst (for_rows False rs s) \<and>
         annotations (snd (for_rows False rs t)) = annotations t"
  using assms
proof (induction rs arbitrary: s t)
  case Nil
  show ?case by simp
next
  case (Cons r rs)
  let ?s' = "snd (loop_body False r s)"
  let ?t' = "snd (loop_body False r t)"
  show ?case
  proof (cases "fst (loop_body False r s)")
    case (Some e)
    then have fs: "for_rows False (r # rs) s = (Some e, ?s')"
      by (cases "loop_body False r s") simp
    with Cons.prems(3) have
      "\<forall>wid. fst (get_map_annotation_ids wid NAMESPACE ?s') \<noteq> [] \<longrightarrow>
             fst (get_map_annotation_ids wid NAMESPACE t) \<noteq> []"
      by simp
    from loop_body_noforce_rerun [OF Cons.prems(1,2) this] Some
    have rt: "fst (loop_body False r t) = Some e" and at: "annotations ?t' = annotations t"
      by simp_all
    from rt have "for_rows False (r # rs) t = (Some e, ?t')"
      by (cases "loop_body False r t") simp
    with fs at show ?thesis by simp
  next
    case None
    then have fs: "for_rows False (r # rs) s = for_rows False rs ?s'"
      by (cases "loop_body False r s") simp
    have mono: "\<forall>wid. fst (get_map_annotation_ids wid NAMESPACE ?s') \<noteq> [] \<longrightarrow>
        fst (get_map_annotation_ids wid NAMESPACE (snd (for_rows False rs ?s'))) \<noteq> []"
      using for_rows_ids [of _ NAMESPACE False rs ?s'] by blast
    with Cons.prems(3) have
      "\<forall>wid. fst (get_map_annotation_ids wid NAMESPACE ?s') \<noteq> [] \<longrightarrow>
             fst (get_map_annotation_ids wid NAMESPACE t) \<noteq> []"
      unfolding fs by blast
    from loop_body_noforce_rerun [OF Cons.prems(1,2) this] None
    have rt: "fst (loop_body False r t) = None" and at: "annotations ?t' = annotations t"
      by simp_all
    from rt have ft: "for_rows False (r # rs) t = for_rows False rs ?t'"
      by (cases "loop_body False r t") simp
    have p': "plates ?t' = plates ?s'" and w': "wells ?t' = wells ?s'"
      using Cons.prems(1,2) by (simp_all add: loop_body_tables)
    have "\<forall>wid. fst (get_map_annotation_ids wid NAMESPACE ?t') =
               fst (get_map_annotation_ids wid NAMESPACE t)"
      by (intro allI) (rule query_cong(3) [OF at])
    with Cons.prems(3) have
      "\<forall>wid. fst (get_map_annotation_ids wid NAMESPACE (snd (for_rows False rs ?s'))) \<noteq> [] \<longrightarrow>
             fst (get_map_annotation_ids wid NAMESPACE ?t') \<noteq> []"
      unfolding fs by simp
    from Cons.IH [OF p' w' this] at show ?thesis
      unfolding fs ft by simp
  qed
qed

lemma main_result:
  "find (\<lambda>col. col \<notin> set (columns df)) (map fst DTYPES) = None \<Longrightarrow>
   fst (main df force s) = fst (for_rows force (iterrows df) (emit Connect s)) \<and>
   annotations (snd (main df force s)) =
     annotations (snd (for_rows force (iterrows df) (emit Connect s))) \<and>
   plates (snd (main df force s)) = plates s \<and>
   wells (snd (main df force s)) = wells s"
  using for_rows_tables [of force "iterrows df" "emit Connect s"]
  by (cases "for_rows force (iterrows df) (emit Connect s)")
     (auto simp: main_def split: option.splits)

lemma main_noforce_rerun:
  "fst (main df False (snd (main df False s))) = fst (main df False s) \<and>
   annotations (snd (main df False (snd (main df False s)))) = annotations (snd (main df False s))"
proof (cases "find (\<lambda>col. col \<notin> set (columns df)) (map fst DTYPES)")
  case (Some col)
  then show ?thesis by (simp add: main_def)
next
  case None
  let ?s1 = "snd (main df False s)"
  note m1 = main_result [OF None, of False s]
  note m2 = main_result [OF None, of False ?s1]
  have "plates (emit Connect ?s1) = plates (emit Connect s)"
    and "wells (emit Connect ?s1) = wells (emit Connect s)"
    using m1 by simp_all
  moreover have "\<forall>wid.
      fst (get_map_annotation_ids wid NAMESPACE (snd (for_rows False (iterrows df) (emit Connect s)))) \<noteq> [] \<longrightarrow>
      fst (get_map_annotation_ids wid NAMESPACE (emit Connect ?s1)) \<noteq> []"
    using m1 by (simp add: get_map_annotation_ids_def)
  ultimately have
    "fst (for_rows False (iterrows df) (emit Connect ?s1)) =
       fst (for_rows False (iterrows df) (emit Connect s)) \<and>
     annotations (snd (for_rows False (iterrows df) (emit Connect ?s1))) =
       annotations (emit Connect ?s1)"
    by (rule for_rows_noforce_rerun)
  with m1 m2 show ?thesis by simp
qed

section \<open>A row within a run\<close>

lemma main_at_row:
  assumes "set (map fst DTYPES) \<subseteq> set (columns df)"
    and "iterrows df = before @ record # after"
    and "for_rows force before (emit Connect s) = (None, s1)"
  shows "main df force s =
           (case loop_body force record s1 of
              (Some e, s2) \<Rightarrow> (Some e, s2)
            | (None, s2) \<Rightarrow>
                (case for_rows force after s2 of
                   (Some e, s3) \<Rightarrow> (Some e, s3)
                 | (None, s3) \<Rightarrow> (None, emit Close s3)))"
proof -
  from assms(1) have "find (\<lambda>col. col \<notin> set (columns df)) (map fst DTYPES) = None"
    by (auto simp: find_None_iff)
  then have "main df force s =
      (case for_rows force (before @ record # after) (emit Connect s) of
         (Some e, s3) \<Rightarrow> (Some e, s3)
       | (None, s3) \<Rightarrow> (None, emit Close s3))"
    by (simp add: main_def assms(2))
  also have "for_rows force (before @ record # after) (emit Connect s) =
      for_rows force (record # after) s1"
    by (simp add: for_rows_append assms(3))
  also have "for_rows force (record # after) s1 =
      (case loop_body force record s1 of
         (Some e, s2) \<Rightarrow> (Some e, s2)
       | (None, s2) \<Rightarrow> for_rows force after s2)"
    by simp
  finally show ?thesis
    by (simp split: prod.splits option.splits)
qed

lemma main_after_row:
  assumes "set (map fst DTYPES) \<subseteq> set (columns df)"
    and "iterrows df = before @ record # after"
    and "for_rows force before (emit Connect s) = (None, s1)"
    and "loop_body force record s1 = (None, s2)"
  shows "main df force s =
           (case for_rows force after s2 of
              (Some e, s3) \<Rightarrow> (Some e, s3)
            | (None, s3) \<Rightarrow> (None, emit Close s3))"
  by (simp add: main_at_row [OF assms(1-3)] assms(4))

lemma run_tail_annotations:
  "annotations (snd (case for_rows force rs s of
                       (Some e, s3) \<Rightarrow> (Some e, s3)
                     | (None, s3) \<Rightarrow> (None, emit Close s3))) =
   annotations (snd (for_rows force rs s))"
  by (cases "for_rows force rs s") (simp split: option.splits)

lemma for_rows_ids_stable:
  "fst (get_map_annotation_ids w ns s) \<noteq> [] \<Longrightarrow>
   fst (get_map_annotation_ids w ns (snd (for_rows force rs s))) =
     fst (get_map_annotation_ids w ns s)"
proof (induction rs arbitrary: s)
  case Nil
  show ?case by simp
next
  case (Cons r rs)
  let ?s' = "snd (loop_body force r s)"
  from loop_body_ids [of w ns force r s] Cons.prems
  have step: "fst (get_map_annotation_ids w ns ?s') = fst (get_map_annotation_ids w ns s)"
    by auto
  show ?case
  proof (cases "fst (loop_body force r s)")
    case None
    then have "for_rows force (r # rs) s = for_rows force rs ?s'"
      by (cases "loop_body force r s") simp
    moreover from step Cons.prems have "fst (get_map_annotation_ids w ns ?s') \<noteq> []" by simp
    ultimately show ?thesis using Cons.IH [of ?s'] step by simp
  next
    case (Some e)
    then have "for_rows force (r # rs) s = (Some e, ?s')"
      by (cases "loop_body force r s") simp
    with step show ?thesis by simp
  qed
qed

lemma main_ids_after_row:
  assumes "set (map fst DTYPES) \<subseteq> set (columns df)"
    and "iterrows df = before @ record # after"
    and "for_rows force before (emit Connect s) = (None, s1)"
    and "loop_body force record s1 = (None, s2)"
    and "fst (get_map_annotation_ids w ns s2) \<noteq> []"
  shows "fst (get_map_annotation_ids w ns (snd (main df force s))) =
           fst (get_map_annotation_ids w ns s2)"
proof -
  have "annotations (snd (main df force s)) = annotations (snd (for_rows force after s2))"
    unfolding main_after_row [OF assms(1-4)] by (rule run_tail_annotations)
  then have "fst (get_map_annotation_ids w ns (snd (main df force s))) =
      fst (get_map_annotation_ids w ns (snd (for_rows force after s2)))"
    by (rule query_cong)
  also have "\<dots> = fst (get_map_annotation_ids w ns s2)"
    using assms(5) by (rule for_rows_ids_stable)
  finally show ?thesis .
qed

lemma loop_body_extends:
  "\<exists>evs. trace (snd (loop_body force record s)) = trace s @ evs"
proof (cases "parse_row record")
  case (Inl e)
  then show ?thesis by (simp add: loop_body_def)
next
  case (Inr q)
  then obtain name ri ci kv where "parse_row record = Inr (name, ri, ci, kv)"
    by (cases q) auto
  from loop_body_events [OF this, of force s] show ?thesis by blast
qed

lemma for_rows_extends:
  "\<exists>evs. trace (snd (for_rows force rs s)) = trace s @ evs"
proof (induction rs arbitrary: s)
  case Nil
  show ?case by simp
next
  case (Cons r rs)
  let ?s' = "snd (loop_body force r s)"
  from loop_body_extends [of force r s] obtain e1 where e1: "trace ?s' = trace s @ e1"
    by blast
  show ?case
  proof (cases "fst (loop_body force r s)")
    case None
    then have "for_rows force (r # rs) s = for_rows force rs ?s'"
      by (cases "loop_body force r s") simp
    moreover from Cons.IH [of ?s'] obtain e2
      where "trace (snd (for_rows force rs ?s')) = trace ?s' @ e2" by blast
    ultimately have "trace (snd (for_rows force (r # rs) s)) = trace s @ (e1 @ e2)"
      using e1 by simp
    then show ?thesis by blast
  next
    case (Some e)
    then have "for_rows force (r # rs) s = (Some e, ?s')"
      by (cases "loop_body force r s") simp
    with e1 show ?thesis by simp
  qed
qed

lemma main_trace_at_row:
  assumes "set (map fst DTYPES) \<subseteq> set (columns df)"
    and "iterrows df = before @ record # after"
    and "for_rows force before (emit Connect s) = (None, s1)"
  shows "\<exists>later. trace (snd (main df force s)) =
           trace (snd (loop_body force record s1)) @ later"
proof (cases "loop_body force record s1")
  case (Pair res s2)
  show ?thesis
  proof (cases res)
    case (Some e)
    with Pair show ?thesis by (simp add: main_at_row [OF assms])
  next
    case None
    from for_rows_extends [of force after s2] obtain e2
      where e2: "trace (snd (for_rows force after s2)) = trace s2 @ e2" by blast
    show ?thesis
    proof (cases "for_rows force after s2")
      case (Pair res' s3)
      with e2 have "trace s3 = trace s2 @ e2" by simp
      with Pair None \<open>loop_body force record s1 = (res, s2)\<close> show ?thesis
        by (cases res') (simp_all add: main_at_row [OF assms])
    qed
  qed
qed

section \<open>An empty plate name\<close>

text \<open>
  A row whose \<open>plate_name\<close> cell is empty carries NaN there. The script asks the server
  for the plate named \<open>nan\<close> and, when there is none, ends with the error that names it.
\<close>

lemma nan_is_nan: "is_nan 0x7FF8000000000000"
  by code_simp

lemma loop_body_empty_plate_name:
  "loop_body False
     [(''plate_name'', CFloat 0x7FF8000000000000), (''row'', CInt 1), (''column'', CInt 1),
      (''individual'', CStr ''X''), (''concentration'', CFloat 0x3FE0000000000000),
      (''compound'', CStr ''Y'')]
     \<lparr>plates = [\<lparr>pl_id = 7, pl_name = ''PlateA''\<rparr>],
      wells = [\<lparr>w_id = 11, w_plate = 7, w_row = 0, w_column = 0\<rparr>],
      annotations = [], trace = []\<rparr> =
   (Some (ValueError ''No plate found with name nan''),
    \<lparr>plates = [\<lparr>pl_id = 7, pl_name = ''PlateA''\<rparr>],
     wells = [\<lparr>w_id = 11, w_plate = 7, w_row = 0, w_column = 0\<rparr>],
     annotations = [], trace = [Projection ''nan'']\<rparr>)"
  by code_simp

text \<open>
  Claim C1. Take a run of the script over a table in which the rows before some row
  were processed without an exception, and let that row be one whose plate name
  resolves, whose position (row - 1, column - 1) resolves to a well, and whose well has
  no annotation under the namespace when the row is reached. Then the loop body raises
  nothing at that row and appends exactly one annotation to the server's annotations:
  on that well, under the namespace, with the row's fields without \<open>plate_name\<close>,
  \<open>row\<close> and \<open>column\<close>, under an identifier no annotation had. Its last two events
  are the post and the line that prints the new identifier. The run goes on with the
  rows after it from that state, and when it ends the query for the well under the
  namespace returns the new identifier alone.
\<close>

theorem main_creates_annotation:
  assumes "set (map fst DTYPES) \<subseteq> set (columns df)"
    and "iterrows df = before @ record # after"
    and "for_rows force before (emit Connect s) = (None, s1)"
    and "map_of record ''plate_name'' = Some (CStr name)"
    and "map_of record ''row'' = Some (CInt r)"
    and "map_of record ''column'' = Some (CInt c)"
    and "fst (get_plate_id name s1) = Inr pid"
    and "fst (get_well_id pid (r - 1) (c - 1) s1) = Some wid"
    and "fst (get_map_annotation_ids wid NAMESPACE s1) = []"
  shows "\<exists>s2.
           loop_body force record s1 = (None, s2) \<and>
           plates s2 = plates s1 \<and>
           wells s2 = wells s1 \<and>
           annotations s2 =
             annotations s1 @
               [\<lparr>ma_id = fresh_id s1, ma_ns = NAMESPACE, ma_well = wid,
                 ma_kv = filter (\<lambda>(k, v). k \<notin> {''plate_name'', ''row'', ''column''}) record\<rparr>] \<and>
           fresh_id s1 \<notin> ma_id ` set (annotations s1) \<and>
           trace s2 =
             trace s1 @
               [Projection name, GetWellId pid (r - 1) (c - 1),
                GetMapAnnotationIds wid NAMESPACE,
                PostMapAnnotation wid
                  (filter (\<lambda>(k, v). k \<notin> {''plate_name'', ''row'', ''column''}) record)
                  NAMESPACE,
                Print (''New MapAnnotation:'' @ str_int (fresh_id s1) @
                       '' posted to Well:'' @ str_int wid)] \<and>
           main df force s =
             (case for_rows force after s2 of
                (Some e, s3) \<Rightarrow> (Some e, s3)
              | (None, s3) \<Rightarrow> (None, emit Close s3)) \<and>
           fst (get_map_annotation_ids wid NAMESPACE (snd (main df force s))) = [fresh_id s1]"
proof -
  let ?kv = "filter (\<lambda>(k, v). k \<notin> {''plate_name'', ''row'', ''column''}) record"
  let ?s2 = "snd (loop_body force record s1)"
  have p: "parse_row record = Inr (name, r - 1, c - 1, ?kv)"
    using assms(4-6) by (rule parse_row_ok)
  have eq: "loop_body force record s1 =
      annotate_well force wid ?kv
        (s1\<lparr>trace := trace s1 @ [Projection name, GetWellId pid (r - 1) (c - 1)]\<rparr>)"
    using p assms(7,8) by (rule loop_body_found)
  have res: "fst (loop_body force record s1) = None"
    unfolding eq by (rule annotate_well_result)
  then have lb: "loop_body force record s1 = (None, ?s2)"
    by (cases "loop_body force record s1") simp
  have pl: "plates ?s2 = plates s1" and we: "wells ?s2 = wells s1"
    by (rule loop_body_tables)+
  have an: "annotations ?s2 = annotations s1 @
      [\<lparr>ma_id = fresh_id s1, ma_ns = NAMESPACE, ma_well = wid, ma_kv = ?kv\<rparr>]"
    using assms(9) by (simp add: eq annotate_well_unfold)
  have tr: "trace ?s2 = trace s1 @
      [Projection name, GetWellId pid (r - 1) (c - 1), GetMapAnnotationIds wid NAMESPACE,
       PostMapAnnotation wid ?kv NAMESPACE,
       Print (''New MapAnnotation:'' @ str_int (fresh_id s1) @
              '' posted to Well:'' @ str_int wid)]"
    using assms(9) by (simp add: eq annotate_well_unfold)
  have fr: "fresh_id s1 \<notin> ma_id ` set (annotations s1)" by (rule fresh_id_new)
  have ma: "main df force s =
      (case for_rows force after ?s2 of
         (Some e, s3) \<Rightarrow> (Some e, s3)
       | (None, s3) \<Rightarrow> (None, emit Close s3))"
    using assms(1-3) lb by (rule main_after_row)
  have i2: "fst (get_map_annotation_ids wid NAMESPACE ?s2) = [fresh_id s1]"
    using assms(9) by (simp add: eq annotate_well_ids)
  then have "fst (get_map_annotation_ids wid NAMESPACE ?s2) \<noteq> []" by simp
  with assms(1-3) lb
  have "fst (get_map_annotation_ids wid NAMESPACE (snd (main df force s))) =
      fst (get_map_annotation_ids wid NAMESPACE ?s2)"
    by (rule main_ids_after_row)
  with i2 have fin: "fst (get_map_annotation_ids wid NAMESPACE (snd (main df force s))) =
      [fresh_id s1]"
    by simp
  from lb pl we an fr tr ma fin show ?thesis
    by (intro exI [of _ ?s2] conjI)
qed

theorem main_creates_annotation_witness:
  "main
     \<lparr>columns = [''plate_name'', ''row'', ''column'', ''individual'', ''concentration'', ''compound''],
      rows = [[CStr ''PlateA'', CInt 1, CInt 1, CStr ''X'', CFloat 0x3FE0000000000000, CStr ''Y'']]\<rparr>
     False
     \<lparr>plates = [\<lparr>pl_id = 7, pl_name = ''PlateA''\<rparr>],
      wells = [\<lparr>w_id = 11, w_plate = 7, w_row = 0, w_column = 0\<rparr>],
      annotations = [], trace = []\<rparr> =
   (None,
    \<lparr>plates = [\<lparr>pl_id = 7, pl_name = ''PlateA''\<rparr>],
     wells = [\<lparr>w_id = 11, w_plate = 7, w_row = 0, w_column = 0\<rparr>],
     annotations =
       [\<lparr>ma_id = 1, ma_ns = NAMESPACE, ma_well = 11,
         ma_kv = [(''individual'', CStr ''X''), (''concentration'', CFloat 0x3FE0000000000000),
                  (''compound'', CStr ''Y'')]\<rparr>],
     trace =
       [Connect, Projection ''PlateA'', GetWellId 7 0 0, GetMapAnnotationIds 11 NAMESPACE,
        PostMapAnnotation 11
          [(''individual'', CStr ''X''), (''concentration'', CFloat 0x3FE0000000000000),
           (''compound'', CStr ''Y'')] NAMESPACE,
        Print ''New MapAnnotation:1 posted to Well:11'', Close]\<rparr>)"
proof -
  let ?df = "\<lparr>columns = [''plate_name'', ''row'', ''column'', ''individual'', ''concentration'', ''compound''],
      rows = [[CStr ''PlateA'', CInt 1, CInt 1, CStr ''X'', CFloat 0x3FE0000000000000, CStr ''Y'']]\<rparr>"
  let ?s = "\<lparr>plates = [\<lparr>pl_id = 7, pl_name = ''PlateA''\<rparr>],
             wells = [\<lparr>w_id = 11, w_plate = 7, w_row = 0, w_column = 0\<rparr>],
             annotations = [], trace = []\<rparr>"
  let ?fields = "[(''plate_name'', CStr ''PlateA''), (''row'', CInt 1), (''column'', CInt 1),
                  (''individual'', CStr ''X''), (''concentration'', CFloat 0x3FE0000000000000),
                  (''compound'', CStr ''Y'')]"
  have 1: "set (map fst DTYPES) \<subseteq> set (columns ?df)" by (simp add: DTYPES_def)
  have 2: "iterrows ?df = [] @ ?fields # []" by (simp add: iterrows_def dict_def)
  have 3: "for_rows False [] (emit Connect ?s) = (None, emit Connect ?s)" by simp
  have 4: "map_of ?fields ''plate_name'' = Some (CStr ''PlateA'')" by simp
  have 5: "map_of ?fields ''row'' = Some (CInt 1)" by simp
  have 6: "map_of ?fields ''column'' = Some (CInt 1)" by simp
  have 7: "fst (get_plate_id ''PlateA'' (emit Connect ?s)) = Inr 7"
    by (simp add: get_plate_id_def projection_def)
  have 8: "fst (get_well_id 7 (1 - 1) (1 - 1) (emit Connect ?s)) = Some 11"
    by (simp add: get_well_id_def)
  have 9: "fst (get_map_annotation_ids 11 NAMESPACE (emit Connect ?s)) = []"
    by (simp add: get_map_annotation_ids_def)
  have f: "fresh_id (emit Connect ?s) = 1" by (simp add: fresh_id_def)
  have d1: "str_int 1 = ''1''" by code_simp
  have d11: "str_int 11 = ''11''" by code_simp
  from main_creates_annotation [OF 1 2 3 4 5 6 7 8 9] obtain s2
    where a: "annotations s2 = annotations (emit Connect ?s) @
        [\<lparr>ma_id = fresh_id (emit Connect ?s), ma_ns = NAMESPACE, ma_well = 11,
          ma_kv = filter (\<lambda>(k, v). k \<notin> {''plate_name'', ''row'', ''column''}) ?fields\<rparr>]"
      and p: "plates s2 = plates (emit Connect ?s)" and w: "wells s2 = wells (emit Connect ?s)"
      and t: "trace s2 = trace (emit Connect ?s) @
        [Projection ''PlateA'', GetWellId 7 (1 - 1) (1 - 1), GetMapAnnotationIds 11 NAMESPACE,
         PostMapAnnotation 11
           (filter (\<lambda>(k, v). k \<notin> {''plate_name'', ''row'', ''column''}) ?fields) NAMESPACE,
         Print (''New MapAnnotation:'' @ str_int (fresh_id (emit Connect ?s)) @
                '' posted to Well:'' @ str_int 11)]"
      and m: "main ?df False ?s =
        (case for_rows False [] s2 of
           (Some e, s3) \<Rightarrow> (Some e, s3)
         | (None, s3) \<Rightarrow> (None, emit Close s3))"
    by blast
  from m have "main ?df False ?s = (None, emit Close s2)" by simp
  moreover have "emit Close s2 =
      \<lparr>plates = plates s2, wells = wells s2, annotations = annotations s2,
       trace = trace s2 @ [Close]\<rparr>"
    by (simp add: emit_def)
  ultimately show ?thesis
    by (simp add: a p w t f d1 d11)
qed

text \<open>
  Claim C3. Take a run with \<open>--force\<close> in which the rows before some row were
  processed without an exception, and let that row be one whose well carries
  annotations under the namespace when the row is reached. Then the loop body raises
  nothing, logs the forced update and makes one write: \<open>put_map_annotation\<close> on the
  first identifier the query returned, with the row's payload. The annotations keep
  their identifiers, wells and namespaces, so none is added; every annotation with the
  updated identifier carries the payload, and one of them is on the well under the
  namespace. The run goes on with the rows after it from that state, and when it ends
  the query for the well under the namespace returns the identifiers it returned
  before the row: no second annotation was created on the well.
\<close>

theorem main_force_overwrites:
  assumes "set (map fst DTYPES) \<subseteq> set (columns df)"
    and "iterrows df = before @ record # after"
    and "for_rows True before (emit Connect s) = (None, s1)"
    and "map_of record ''plate_name'' = Some (CStr name)"
    and "map_of record ''row'' = Some (CInt r)"
    and "map_of record ''column'' = Some (CInt c)"
    and "fst (get_plate_id name s1) = Inr pid"
    and "fst (get_well_id pid (r - 1) (c - 1) s1) = Some wid"
    and "fst (get_map_annotation_ids wid NAMESPACE s1) = i # others"
  shows "\<exists>s2.
           loop_body True record s1 = (None, s2) \<and>
           annotations s2 =
             map (\<lambda>a. if ma_id a = i
                      then a\<lparr>ma_kv := filter (\<lambda>(k, v). k \<notin> {''plate_name'', ''row'', ''column''})
                                          record\<rparr>
                      else a)
               (annotations s1) \<and>
           map ma_id (annotations s2) = map ma_id (annotations s1) \<and>
           map ma_well (annotations s2) = map ma_well (annotations s1) \<and>
           map ma_ns (annotations s2) = map ma_ns (annotations s1) \<and>
           (\<forall>a \<in> set (annotations s2).
              ma_id a = i \<longrightarrow>
                ma_kv a = filter (\<lambda>(k, v). k \<notin> {''plate_name'', ''row'', ''column''}) record) \<and>
           (\<exists>a \<in> set (annotations s2). ma_id a = i \<and> ma_well a = wid \<and> ma_ns a = NAMESPACE) \<and>
           trace s2 =
             trace s1 @
               [Projection name, GetWellId pid (r - 1) (c - 1),
                GetMapAnnotationIds wid NAMESPACE,
                Warning (''MapAnnotation with namespace:'' @ NAMESPACE @
                         '' already exists for well:'' @ str_int wid),
                Warning (''Forcing update of MapAnnotation:'' @ str_int i @
                         '' for well:'' @ str_int wid),
                PutMapAnnotation i
                  (filter (\<lambda>(k, v). k \<notin> {''plate_name'', ''row'', ''column''}) record)] \<and>
           main df True s =
             (case for_rows True after s2 of
                (Some e, s3) \<Rightarrow> (Some e, s3)
              | (None, s3) \<Rightarrow> (None, emit Close s3)) \<and>
           fst (get_map_annotation_ids wid NAMESPACE (snd (main df True s))) = i # others"
proof -
  let ?kv = "filter (\<lambda>(k, v). k \<notin> {''plate_name'', ''row'', ''column''}) record"
  let ?s2 = "snd (loop_body True record s1)"
  have p: "parse_row record = Inr (name, r - 1, c - 1, ?kv)"
    using assms(4-6) by (rule parse_row_ok)
  note f = loop_body_forced_facts [OF p assms(7-9)]
  note k = loop_body_forced_keeps [OF assms(4-9)]
  from f(1) have lb: "loop_body True record s1 = (None, ?s2)"
    by (cases "loop_body True record s1") simp
  have ma: "main df True s =
      (case for_rows True after ?s2 of
         (Some e, s3) \<Rightarrow> (Some e, s3)
       | (None, s3) \<Rightarrow> (None, emit Close s3))"
    using assms(1-3) lb by (rule main_after_row)
  from f(3) have "fst (get_map_annotation_ids wid NAMESPACE ?s2) \<noteq> []" by simp
  with assms(1-3) lb
  have "fst (get_map_annotation_ids wid NAMESPACE (snd (main df True s))) =
      fst (get_map_annotation_ids wid NAMESPACE ?s2)"
    by (rule main_ids_after_row)
  with f(3) have fin: "fst (get_map_annotation_ids wid NAMESPACE (snd (main df True s))) = i # others"
    by simp
  from k have k1: "map ma_id (annotations ?s2) = map ma_id (annotations s1)"
    and k2: "map ma_well (annotations ?s2) = map ma_well (annotations s1)"
    and k3: "map ma_ns (annotations ?s2) = map ma_ns (annotations s1)"
    and k4: "\<forall>a \<in> set (annotations ?s2). ma_id a = i \<longrightarrow> ma_kv a = ?kv"
    and k5: "\<exists>a \<in> set (annotations ?s2). ma_id a = i \<and> ma_well a = wid \<and> ma_ns a = NAMESPACE"
    by blast+
  from lb f(2) k1 k2 k3 k4 k5 f(4) ma fin show ?thesis
    by (intro exI [of _ ?s2] conjI)
qed

theorem main_force_overwrites_witness:
  "main
     \<lparr>columns = [''plate_name'', ''row'', ''column'', ''individual'', ''concentration'', ''compound''],
      rows = [[CStr ''PlateA'', CInt 1, CInt 1, CStr ''X'', CFloat 0x3FE0000000000000, CStr ''Y'']]\<rparr>
     True
     \<lparr>plates = [\<lparr>pl_id = 7, pl_name = ''PlateA''\<rparr>],
      wells = [\<lparr>w_id = 11, w_plate = 7, w_row = 0, w_column = 0\<rparr>],
      annotations = [\<lparr>ma_id = 5, ma_ns = NAMESPACE, ma_well = 11,
                       ma_kv = [(''individual'', CStr ''old'')]\<rparr>],
      trace = []\<rparr> =
   (None,
    \<lparr>plates = [\<lparr>pl_id = 7, pl_name = ''PlateA''\<rparr>],
     wells = [\<lparr>w_id = 11, w_plate = 7, w_row = 0, w_column = 0\<rparr>],
     annotations =
       [\<lparr>ma_id = 5, ma_ns = NAMESPACE, ma_well = 11,
         ma_kv = [(''individual'', CStr ''X''), (''concentration'', CFloat 0x3FE0000000000000),
                  (''compound'', CStr ''Y'')]\<rparr>],
     trace =
       [Connect, Projection ''PlateA'', GetWellId 7 0 0, GetMapAnnotationIds 11 NAMESPACE,
        Warning (''MapAnnotation with namespace:'' @ NAMESPACE @ '' already exists for well:11''),
        Warning ''Forcing update of MapAnnotation:5 for well:11'',
        PutMapAnnotation 5
          [(''individual'', CStr ''X''), (''concentration'', CFloat 0x3FE0000000000000),
           (''compound'', CStr ''Y'')],
        Close]\<rparr>)"
proof -
  let ?df = "\<lparr>columns = [''plate_name'', ''row'', ''column'', ''individual'', ''concentration'', ''compound''],
      rows = [[CStr ''PlateA'', CInt 1, CInt 1, CStr ''X'', CFloat 0x3FE0000000000000, CStr ''Y'']]\<rparr>"
  let ?s = "\<lparr>plates = [\<lparr>pl_id = 7, pl_name = ''PlateA''\<rparr>],
             wells = [\<lparr>w_id = 11, w_plate = 7, w_row = 0, w_column = 0\<rparr>],
             annotations = [\<lparr>ma_id = 5, ma_ns = NAMESPACE, ma_well = 11,
                              ma_kv = [(''individual'', CStr ''old'')]\<rparr>],
             trace = []\<rparr>"
  let ?fields = "[(''plate_name'', CStr ''PlateA''), (''row'', CInt 1), (''column'', CInt 1),
                  (''individual'', CStr ''X''), (''concentration'', CFloat 0x3FE0000000000000),
                  (''compound'', CStr ''Y'')]"
  have 1: "set (map fst DTYPES) \<subseteq> set (columns ?df)" by (simp add: DTYPES_def)
  have 2: "iterrows ?df = [] @ ?fields # []" by (simp add: iterrows_def dict_def)
  have 3: "for_rows True [] (emit Connect ?s) = (None, emit Connect ?s)" by simp
  have 4: "map_of ?fields ''plate_name'' = Some (CStr ''PlateA'')" by simp
  have 5: "map_of ?fields ''row'' = Some (CInt 1)" by simp
  have 6: "map_of ?fields ''column'' = Some (CInt 1)" by simp
  have 7: "fst (get_plate_id ''PlateA'' (emit Connect ?s)) = Inr 7"
    by (simp add: get_plate_id_def projection_def)
  have 8: "fst (get_well_id 7 (1 - 1) (1 - 1) (emit Connect ?s)) = Some 11"
    by (simp add: get_well_id_def)
  have 9: "fst (get_map_annotation_ids 11 NAMESPACE (emit Connect ?s)) = 5 # []"
    by (simp add: get_map_annotation_ids_def)
  have d5: "str_int 5 = ''5''" by code_simp
  have d11: "str_int 11 = ''11''" by code_simp
  from main_force_overwrites [OF 1 2 3 4 5 6 7 8 9] obtain s2
    where a: "annotations s2 =
        map (\<lambda>a. if ma_id a = 5
                 then a\<lparr>ma_kv := filter (\<lambda>(k, v). k \<notin> {''plate_name'', ''row'', ''column''})
                                     ?fields\<rparr>
                 else a)
          (annotations (emit Connect ?s))"
      and lb: "loop_body True ?fields (emit Connect ?s) = (None, s2)"
      and t: "trace s2 = trace (emit Connect ?s) @
        [Projection ''PlateA'', GetWellId 7 (1 - 1) (1 - 1), GetMapAnnotationIds 11 NAMESPACE,
         Warning (''MapAnnotation with namespace:'' @ NAMESPACE @
                  '' already exists for well:'' @ str_int 11),
         Warning (''Forcing update of MapAnnotation:'' @ str_int 5 @
                  '' for well:'' @ str_int 11),
         PutMapAnnotation 5
           (filter (\<lambda>(k, v). k \<notin> {''plate_name'', ''row'', ''column''}) ?fields)]"
      and m: "main ?df True ?s =
        (case for_rows True [] s2 of
           (Some e, s3) \<Rightarrow> (Some e, s3)
         | (None, s3) \<Rightarrow> (None, emit Close s3))"
    by blast
  from lb have "s2 = snd (loop_body True ?fields (emit Connect ?s))" by simp
  then have p: "plates s2 = plates (emit Connect ?s)" and w: "wells s2 = wells (emit Connect ?s)"
    by (simp_all only: loop_body_tables)
  from m have "main ?df True ?s = (None, emit Close s2)" by simp
  moreover have "emit Close s2 =
      \<lparr>plates = plates s2, wells = wells s2, annotations = annotations s2,
       trace = trace s2 @ [Close]\<rparr>"
    by (simp add: emit_def)
  ultimately show ?thesis
    by (simp add: a p w t d5 d11)
qed

text \<open>
  Claim C6. Take a run in which the rows before some row were processed without an
  exception, and let that row have \<open>row = r\<close> and \<open>column = c\<close>. The events of the run
  are those up to the row, then those of the loop body at the row, then the later ones.
  Every well lookup among the events of the row is at row index \<open>r - 1\<close> and column
  index \<open>c - 1\<close>; and when the row's plate name resolves to a plate, the lookup for that
  plate at \<open>(r - 1, c - 1)\<close> is among them, hence among the events of the run.
\<close>

theorem main_well_lookup_zero_based:
  assumes "set (map fst DTYPES) \<subseteq> set (columns df)"
    and "iterrows df = before @ record # after"
    and "for_rows force before (emit Connect s) = (None, s1)"
    and "map_of record ''row'' = Some (CInt r)"
    and "map_of record ''column'' = Some (CInt c)"
  shows "\<exists>evs later.
           trace (snd (loop_body force record s1)) = trace s1 @ evs \<and>
           trace (snd (main df force s)) = trace s1 @ evs @ later \<and>
           (\<forall>p a b. GetWellId p a b \<in> set evs \<longrightarrow> a = r - 1 \<and> b = c - 1) \<and>
           (\<forall>name pid. map_of record ''plate_name'' = Some (CStr name) \<longrightarrow>
                       fst (get_plate_id name s1) = Inr pid \<longrightarrow>
                       GetWellId pid (r - 1) (c - 1) \<in> set evs)"
proof -
  let ?s2 = "snd (loop_body force record s1)"
  let ?evs = "drop (length (trace s1)) (trace ?s2)"
  from loop_body_extends [of force "record" s1] obtain evs where "trace ?s2 = trace s1 @ evs"
    by blast
  then have e: "trace ?s2 = trace s1 @ ?evs" by simp
  from main_trace_at_row [OF assms(1-3)] obtain later
    where "trace (snd (main df force s)) = trace ?s2 @ later"
    by blast
  with e have m: "trace (snd (main df force s)) = trace s1 @ ?evs @ later" by simp
  note l = loop_body_well_lookup [OF assms(4,5), of s1 force]
  from l have only: "\<forall>p a b. GetWellId p a b \<in> set ?evs \<longrightarrow> a = r - 1 \<and> b = c - 1"
    by (rule conjunct1)
  from l have made: "\<forall>name pid. map_of record ''plate_name'' = Some (CStr name) \<longrightarrow>
      fst (get_plate_id name s1) = Inr pid \<longrightarrow> GetWellId pid (r - 1) (c - 1) \<in> set ?evs"
    by (rule conjunct2)
  from e m only made show ?thesis
    by (intro exI [of _ ?evs] exI [of _ later] conjI)
qed

theorem main_well_lookup_zero_based_witness:
  "GetWellId 7 2 4 \<in> set (trace (snd (main
      \<lparr>columns = [''plate_name'', ''row'', ''column'', ''individual'', ''concentration'', ''compound''],
       rows = [[CStr ''PlateA'', CInt 3, CInt 5, CStr ''X'', CFloat 0x3FE0000000000000, CStr ''Y'']]\<rparr>
      False
      \<lparr>plates = [\<lparr>pl_id = 7, pl_name = ''PlateA''\<rparr>],
       wells = [\<lparr>w_id = 11, w_plate = 7, w_row = 0, w_column = 0\<rparr>],
       annotations = [], trace = []\<rparr>)))"
proof -
  let ?df = "\<lparr>columns = [''plate_name'', ''row'', ''column'', ''individual'', ''concentration'', ''compound''],
       rows = [[CStr ''PlateA'', CInt 3, CInt 5, CStr ''X'', CFloat 0x3FE0000000000000, CStr ''Y'']]\<rparr>"
  let ?s = "\<lparr>plates = [\<lparr>pl_id = 7, pl_name = ''PlateA''\<rparr>],
             wells = [\<lparr>w_id = 11, w_plate = 7, w_row = 0, w_column = 0\<rparr>],
             annotations = [], trace = []\<rparr>"
  let ?fields = "[(''plate_name'', CStr ''PlateA''), (''row'', CInt 3), (''column'', CInt 5),
                  (''individual'', CStr ''X''), (''concentration'', CFloat 0x3FE0000000000000),
                  (''compound'', CStr ''Y'')]"
  have 1: "set (map fst DTYPES) \<subseteq> set (columns ?df)" by (simp add: DTYPES_def)
  have 2: "iterrows ?df = [] @ ?fields # []" by (simp add: iterrows_def dict_def)
  have 3: "for_rows False [] (emit Connect ?s) = (None, emit Connect ?s)" by simp
  have 4: "map_of ?fields ''row'' = Some (CInt 3)" by simp
  have 5: "map_of ?fields ''column'' = Some (CInt 5)" by simp
  have 6: "map_of ?fields ''plate_name'' = Some (CStr ''PlateA'')" by simp
  have 7: "fst (get_plate_id ''PlateA'' (emit Connect ?s)) = Inr 7"
    by (simp add: get_plate_id_def projection_def)
  from main_well_lookup_zero_based [OF 1 2 3 4 5] obtain evs later
    where t: "trace (snd (main ?df False ?s)) = trace (emit Connect ?s) @ evs @ later"
      and made: "\<forall>name pid. map_of ?fields ''plate_name'' = Some (CStr name) \<longrightarrow>
          fst (get_plate_id name (emit Connect ?s)) = Inr pid \<longrightarrow>
          GetWellId pid (3 - 1) (5 - 1) \<in> set evs"
    by blast
  from made 6 7 have "GetWellId 7 (3 - 1) (5 - 1) \<in> set evs" by blast
  then have "GetWellId 7 2 4 \<in> set evs" by simp
  then show ?thesis unfolding t by simp
qed

text \<open>
  Claim C2, as the script has it. Take a run without \<open>--force\<close> in which the rows
  before some row were processed without an exception, and let that row be one whose
  well carries an annotation under the namespace when the row is reached. Then the
  loop body logs the two warnings, makes no write (the state changes in its trace
  only, by the three queries and the two warnings) and raises nothing, and the run
  goes on with the rows after it. A second run of any table without \<open>--force\<close> ends
  as the first did and leaves the server's annotations exactly as the first run left
  them. The script never removes an annotation: after the two runs the query for a well
  under the namespace returns at most one annotation if it returned at most one before
  the first run, and otherwise no more than it returned then.
\<close>

theorem no_force_skips_and_rerun_changes_nothing:
  assumes "set (map fst DTYPES) \<subseteq> set (columns df)"
    and "iterrows df = before @ record # after"
    and "for_rows False before (emit Connect s) = (None, s1)"
    and "map_of record ''plate_name'' = Some (CStr name)"
    and "map_of record ''row'' = Some (CInt r)"
    and "map_of record ''column'' = Some (CInt c)"
    and "fst (get_plate_id name s1) = Inr pid"
    and "fst (get_well_id pid (r - 1) (c - 1) s1) = Some wid"
    and "fst (get_map_annotation_ids wid NAMESPACE s1) = i # others"
  shows "loop_body False record s1 =
           (None,
            s1\<lparr>trace := trace s1 @
                [Projection name, GetWellId pid (r - 1) (c - 1),
                 GetMapAnnotationIds wid NAMESPACE,
                 Warning (''MapAnnotation with namespace:'' @ NAMESPACE @
                          '' already exists for well:'' @ str_int wid),
                 Warning (''Skipping MapAnnotation for well:'' @ str_int wid)]\<rparr>) \<and>
         main df False s =
           (case for_rows False after
                   (s1\<lparr>trace := trace s1 @
                       [Projection name, GetWellId pid (r - 1) (c - 1),
                        GetMapAnnotationIds wid NAMESPACE,
                        Warning (''MapAnnotation with namespace:'' @ NAMESPACE @
                                 '' already exists for well:'' @ str_int wid),
                        Warning (''Skipping MapAnnotation for well:'' @ str_int wid)]\<rparr>) of
              (Some e, s3) \<Rightarrow> (Some e, s3)
            | (None, s3) \<Rightarrow> (None, emit Close s3)) \<and>
         (\<forall>df' s0.
            fst (main df' False (snd (main df' False s0))) = fst (main df' False s0) \<and>
            annotations (snd (main df' False (snd (main df' False s0)))) =
              annotations (snd (main df' False s0)) \<and>
            (\<forall>w. length (fst (get_map_annotation_ids w NAMESPACE
                                 (snd (main df' False (snd (main df' False s0)))))) \<le>
                   max 1 (length (fst (get_map_annotation_ids w NAMESPACE s0)))))"
proof -
  let ?kv = "filter (\<lambda>(k, v). k \<notin> {''plate_name'', ''row'', ''column''}) record"
  have p: "parse_row record = Inr (name, r - 1, c - 1, ?kv)"
    using assms(4-6) by (rule parse_row_ok)
  note skip = loop_body_skips [OF p assms(7-9)]
  note run = main_after_row [OF assms(1-3) skip]
  have twice: "\<forall>df' s0.
      fst (main df' False (snd (main df' False s0))) = fst (main df' False s0) \<and>
      annotations (snd (main df' False (snd (main df' False s0)))) =
        annotations (snd (main df' False s0)) \<and>
      (\<forall>w. length (fst (get_map_annotation_ids w NAMESPACE
                           (snd (main df' False (snd (main df' False s0)))))) \<le>
             max 1 (length (fst (get_map_annotation_ids w NAMESPACE s0))))"
  proof (intro allI conjI)
    fix df' s0 w
    show "fst (main df' False (snd (main df' False s0))) = fst (main df' False s0)"
      using main_noforce_rerun [of df' s0] by (rule conjunct1)
    show "annotations (snd (main df' False (snd (main df' False s0)))) =
        annotations (snd (main df' False s0))"
      using main_noforce_rerun [of df' s0] by (rule conjunct2)
    have "length (fst (get_map_annotation_ids w NAMESPACE
                          (snd (main df' False (snd (main df' False s0)))))) \<le>
          max 1 (length (fst (get_map_annotation_ids w NAMESPACE (snd (main df' False s0)))))"
      by (rule main_ids)
    moreover have "length (fst (get_map_annotation_ids w NAMESPACE (snd (main df' False s0)))) \<le>
          max 1 (length (fst (get_map_annotation_ids w NAMESPACE s0)))"
      by (rule main_ids)
    ultimately show "length (fst (get_map_annotation_ids w NAMESPACE
                          (snd (main df' False (snd (main df' False s0)))))) \<le>
          max 1 (length (fst (get_map_annotation_ids w NAMESPACE s0)))"
      by linarith
  qed
  from skip run twice show ?thesis by (intro conjI)
qed

theorem no_force_skips_and_rerun_changes_nothing_witness:
  "main
     \<lparr>columns = [''plate_name'', ''row'', ''column'', ''individual'', ''concentration'', ''compound''],
      rows = [[CStr ''PlateA'', CInt 1, CInt 1, CStr ''X'', CFloat 0x3FE0000000000000, CStr ''Y'']]\<rparr>
     False
     \<lparr>plates = [\<lparr>pl_id = 7, pl_name = ''PlateA''\<rparr>],
      wells = [\<lparr>w_id = 11, w_plate = 7, w_row = 0, w_column = 0\<rparr>],
      annotations = [\<lparr>ma_id = 5, ma_ns = NAMESPACE, ma_well = 11,
                       ma_kv = [(''individual'', CStr ''old'')]\<rparr>],
      trace = []\<rparr> =
   (None,
    \<lparr>plates = [\<lparr>pl_id = 7, pl_name = ''PlateA''\<rparr>],
     wells = [\<lparr>w_id = 11, w_plate = 7, w_row = 0, w_column = 0\<rparr>],
     annotations = [\<lparr>ma_id = 5, ma_ns = NAMESPACE, ma_well = 11,
                      ma_kv = [(''individual'', CStr ''old'')]\<rparr>],
     trace =
       [Connect, Projection ''PlateA'', GetWellId 7 0 0, GetMapAnnotationIds 11 NAMESPACE,
        Warning (''MapAnnotation with namespace:'' @ NAMESPACE @ '' already exists for well:11''),
        Warning ''Skipping MapAnnotation for well:11'',
        Close]\<rparr>) \<and>
   annotations (snd (main
     \<lparr>columns = [''plate_name'', ''row'', ''column'', ''individual'', ''concentration'', ''compound''],
      rows = [[CStr ''PlateA'', CInt 1, CInt 1, CStr ''X'', CFloat 0x3FE0000000000000, CStr ''Y'']]\<rparr>
     False
     (snd (main
       \<lparr>columns = [''plate_name'', ''row'', ''column'', ''individual'', ''concentration'', ''compound''],
        rows = [[CStr ''PlateA'', CInt 1, CInt 1, CStr ''X'', CFloat 0x3FE0000000000000, CStr ''Y'']]\<rparr>
       False
       \<lparr>plates = [\<lparr>pl_id = 7, pl_name = ''PlateA''\<rparr>],
        wells = [\<lparr>w_id = 11, w_plate = 7, w_row = 0, w_column = 0\<rparr>],
        annotations = [\<lparr>ma_id = 5, ma_ns = NAMESPACE, ma_well = 11,
                         ma_kv = [(''individual'', CStr ''old'')]\<rparr>],
        trace = []\<rparr>)))) =
   [\<lparr>ma_id = 5, ma_ns = NAMESPACE, ma_well = 11, ma_kv = [(''individual'', CStr ''old'')]\<rparr>]"
proof -
  let ?df = "\<lparr>columns = [''plate_name'', ''row'', ''column'', ''individual'', ''concentration'', ''compound''],
      rows = [[CStr ''PlateA'', CInt 1, CInt 1, CStr ''X'', CFloat 0x3FE0000000000000, CStr ''Y'']]\<rparr>"
  let ?s = "\<lparr>plates = [\<lparr>pl_id = 7, pl_name = ''PlateA''\<rparr>],
             wells = [\<lparr>w_id = 11, w_plate = 7, w_row = 0, w_column = 0\<rparr>],
             annotations = [\<lparr>ma_id = 5, ma_ns = NAMESPACE, ma_well = 11,
                              ma_kv = [(''individual'', CStr ''old'')]\<rparr>],
             trace = []\<rparr>"
  let ?fields = "[(''plate_name'', CStr ''PlateA''), (''row'', CInt 1), (''column'', CInt 1),
                  (''individual'', CStr ''X''), (''concentration'', CFloat 0x3FE0000000000000),
                  (''compound'', CStr ''Y'')]"
  have 1: "set (map fst DTYPES) \<subseteq> set (columns ?df)" by (simp add: DTYPES_def)
  have 2: "iterrows ?df = [] @ ?fields # []" by (simp add: iterrows_def dict_def)
  have 3: "for_rows False [] (emit Connect ?s) = (None, emit Connect ?s)" by simp
  have 4: "map_of ?fields ''plate_name'' = Some (CStr ''PlateA'')" by simp
  have 5: "map_of ?fields ''row'' = Some (CInt 1)" by simp
  have 6: "map_of ?fields ''column'' = Some (CInt 1)" by simp
  have 7: "fst (get_plate_id ''PlateA'' (emit Connect ?s)) = Inr 7"
    by (simp add: get_plate_id_def projection_def)
  have 8: "fst (get_well_id 7 (1 - 1) (1 - 1) (emit Connect ?s)) = Some 11"
    by (simp add: get_well_id_def)
  have 9: "fst (get_map_annotation_ids 11 NAMESPACE (emit Connect ?s)) = 5 # []"
    by (simp add: get_map_annotation_ids_def)
  have d11: "str_int 11 = ''11''" by code_simp
  note t = no_force_skips_and_rerun_changes_nothing [OF 1 2 3 4 5 6 7 8 9]
  from t [THEN conjunct2, THEN conjunct1]
  have m: "main ?df False ?s =
     (None,
      \<lparr>plates = [\<lparr>pl_id = 7, pl_name = ''PlateA''\<rparr>],
       wells = [\<lparr>w_id = 11, w_plate = 7, w_row = 0, w_column = 0\<rparr>],
       annotations = [\<lparr>ma_id = 5, ma_ns = NAMESPACE, ma_well = 11,
                        ma_kv = [(''individual'', CStr ''old'')]\<rparr>],
       trace =
         [Connect, Projection ''PlateA'', GetWellId 7 0 0, GetMapAnnotationIds 11 NAMESPACE,
          Warning (''MapAnnotation with namespace:'' @ NAMESPACE @ '' already exists for well:11''),
          Warning ''Skipping MapAnnotation for well:11'',
          Close]\<rparr>)"
    by (simp add: emit_def d11)
  from t [THEN conjunct2, THEN conjunct2]
  have "annotations (snd (main ?df False (snd (main ?df False ?s)))) =
      annotations (snd (main ?df False ?s))"
    by blast
  with m show ?thesis by simp
qed

text \<open>
  The claim as the specification words it fails on a well that carries two annotations
  under the namespace before the first run: two runs without \<open>--force\<close> skip the well
  twice, and the query still returns both.
\<close>

theorem no_force_rerun_counterexample:
  "fst (get_map_annotation_ids 11 NAMESPACE
     \<lparr>plates = [\<lparr>pl_id = 7, pl_name = ''PlateA''\<rparr>],
      wells = [\<lparr>w_id = 11, w_plate = 7, w_row = 0, w_column = 0\<rparr>],
      annotations = [\<lparr>ma_id = 5, ma_ns = NAMESPACE, ma_well = 11,
                       ma_kv = [(''individual'', CStr ''old'')]\<rparr>,
                     \<lparr>ma_id = 6, ma_ns = NAMESPACE, ma_well = 11,
                       ma_kv = [(''individual'', CStr ''other'')]\<rparr>],
      trace = []\<rparr>) = [5, 6] \<and>
   fst (get_map_annotation_ids 11 NAMESPACE (snd (main
     \<lparr>columns = [''plate_name'', ''row'', ''column'', ''individual'', ''concentration'', ''compound''],
      rows = [[CStr ''PlateA'', CInt 1, CInt 1, CStr ''X'', CFloat 0x3FE0000000000000, CStr ''Y'']]\<rparr>
     False
     (snd (main
       \<lparr>columns = [''plate_name'', ''row'', ''column'', ''individual'', ''concentration'', ''compound''],
        rows = [[CStr ''PlateA'', CInt 1, CInt 1, CStr ''X'', CFloat 0x3FE0000000000000, CStr ''Y'']]\<rparr>
       False
       \<lparr>plates = [\<lparr>pl_id = 7, pl_name = ''PlateA''\<rparr>],
        wells = [\<lparr>w_id = 11, w_plate = 7, w_row = 0, w_column = 0\<rparr>],
        annotations = [\<lparr>ma_id = 5, ma_ns = NAMESPACE, ma_well = 11,
                         ma_kv = [(''individual'', CStr ''old'')]\<rparr>,
                       \<lparr>ma_id = 6, ma_ns = NAMESPACE, ma_well = 11,
                         ma_kv = [(''individual'', CStr ''other'')]\<rparr>],
        trace = []\<rparr>))))) = [5, 6] \<and>
   \<not> length (fst (get_map_annotation_ids 11 NAMESPACE (snd (main
     \<lparr>columns = [''plate_name'', ''row'', ''column'', ''individual'', ''concentration'', ''compound''],
      rows = [[CStr ''PlateA'', CInt 1, CInt 1, CStr ''X'', CFloat 0x3FE0000000000000, CStr ''Y'']]\<rparr>
     False
     (snd (main
       \<lparr>columns = [''plate_name'', ''row'', ''column'', ''individual'', ''concentration'', ''compound''],
        rows = [[CStr ''PlateA'', CInt 1, CInt 1, CStr ''X'', CFloat 0x3FE0000000000000, CStr ''Y'']]\<rparr>
       False
       \<lparr>plates = [\<lparr>pl_id = 7, pl_name = ''PlateA''\<rparr>],
        wells = [\<lparr>w_id = 11, w_plate = 7, w_row = 0, w_column = 0\<rparr>],
        annotations = [\<lparr>ma_id = 5, ma_ns = NAMESPACE, ma_well = 11,
                         ma_kv = [(''individual'', CStr ''old'')]\<rparr>,
                       \<lparr>ma_id = 6, ma_ns = NAMESPACE, ma_well = 11,
                         ma_kv = [(''individual'', CStr ''other'')]\<rparr>],
        trace = []\<rparr>)))))) \<le> 1"
  by code_simp

end
